theory Spec2Isabelle
  imports Main "HOL-Library.AList"
begin

section \<open>extract\_wheels: the process environment\<close>

text \<open>
  \<^verbatim>\<open>os.environ\<close> is a dictionary from variable names to values: a map.
\<close>

type_synonym environ = "string \<rightharpoonup> string"

text \<open>
  \<^verbatim>\<open>configure_reproducible_wheels\<close> (\<^verbatim>\<open>extract_wheels/__init__.py\<close>): three statements,
  each reading the environment left by the one before.
\<close>

definition configure_reproducible_wheels :: "environ \<Rightarrow> environ" where
  "configure_reproducible_wheels env =
     (let env1 = (case env ''CFLAGS'' of
                    Some v \<Rightarrow> env(''CFLAGS'' \<mapsto> v @ '' -g0'')
                  | None \<Rightarrow> env(''CFLAGS'' \<mapsto> ''-g0''));
          env2 = (if env1 ''SOURCE_DATE_EPOCH'' = None
                  then env1(''SOURCE_DATE_EPOCH'' \<mapsto> ''315532800'') else env1);
          env3 = (if env2 ''PYTHONHASHSEED'' = None
                  then env2(''PYTHONHASHSEED'' \<mapsto> ''0'') else env2)
      in env3)"

section \<open>Exceptions\<close>

text \<open>
  \<^verbatim>\<open>subprocess.run\<close> returns a \<^verbatim>\<open>CompletedProcess\<close>: the command and its exit code.
\<close>

record completed_process =
  args :: "string list"
  returncode :: int

text \<open>
  The exceptions the two modules raise or let through, as values. A \<^verbatim>\<open>RuntimeError\<close>
  is raised with a message (\<^verbatim>\<open>install_entry_points\<close>) or with the list of failed
  processes (\<^verbatim>\<open>_fetch_packages_parallel\<close>). \<^verbatim>\<open>Raised\<close> stands for an exception of an
  external collaborator (pip's parser, the wheel extraction, setuptools).
\<close>

datatype payload = Message string | Processes "completed_process list"

datatype error =
    RuntimeError payload
  | ValueError string
  | KeyError string
  | FileNotFoundError string
  | FileExistsError string
  | IsADirectoryError string
  | NotADirectoryError string
  | OSError string
  | CalledProcessError int "string list" string
  | SystemExit int
  | Raised string

section \<open>extract\_wheels: fetching the wheels\<close>

text \<open>
  A parsed requirement, as \<^verbatim>\<open>_dl_wheel\<close> reads it: the name and the version specifier,
  both already strings.
\<close>

record requirement =
  name :: string
  specifier :: string

text \<open>
  \<^verbatim>\<open>str.isspace\<close> on the code points below 256, and \<^verbatim>\<open>str.split()\<close> with no
  argument: runs of whitespace separate the tokens and no token is empty. The first
  argument of \<^verbatim>\<open>split_aux\<close> is the token being read.
\<close>

definition isspace :: "char \<Rightarrow> bool" where
  "isspace c \<longleftrightarrow> of_char c \<in> {9, 10, 11, 12, 13, 28, 29, 30, 31, 32, 133, 160 :: nat}"

fun split_aux :: "string \<Rightarrow> string \<Rightarrow> string list" where
  "split_aux cur [] = (if cur = [] then [] else [cur])"
| "split_aux cur (c # cs) =
     (if isspace c then (if cur = [] then split_aux [] cs else cur # split_aux [] cs)
      else split_aux (cur @ [c]) cs)"

definition py_split :: "string \<Rightarrow> string list" where
  "py_split s = split_aux [] s"

definition startswith :: "string \<Rightarrow> string \<Rightarrow> bool" where
  "startswith s p \<longleftrightarrow> take (length p) s = p"

definition endswith :: "string \<Rightarrow> string \<Rightarrow> bool" where
  "endswith s p \<longleftrightarrow> length p \<le> length s \<and> drop (length s - length p) s = p"

text \<open>
  What the program observes of the world outside it: the interpreter's path, the files it
  reads, pip's requirements parser, the exit code and captured output of each subprocess
  (the subprocess number is its position among those the run starts, so that two equal
  commands may end differently), the wheels found by \<^verbatim>\<open>glob.glob("*.whl")\<close>, and the
  functions of \<^verbatim>\<open>extract_wheels.lib\<close> called by \<^verbatim>\<open>main\<close>.
\<close>

type_synonym extras = "(string \<times> string list) list"

record world =
  executable :: string
  readlines :: "string \<Rightarrow> string list option"
  parse_requirements :: "string \<Rightarrow> error + requirement list"
  exit_code :: "nat \<Rightarrow> string list \<Rightarrow> int"
  stdout :: "nat \<Rightarrow> string list \<Rightarrow> string"
  wheels :: "string list"
  parse_extras :: "string \<Rightarrow> error + extras"
  extract_wheel :: "string \<Rightarrow> extras \<Rightarrow> error + string"
  generate_requirements_file_contents :: "string \<Rightarrow> string list \<Rightarrow> string"

text \<open>
  The effects of a run, in order: a subprocess run to completion, a wheel handed to
  \<^verbatim>\<open>bazel.extract_wheel\<close>, a file written. The state is the environment and this log.
\<close>

datatype event = Spawn "string list" | Extract string | Write string string

record state =
  environ :: environ
  events :: "event list"

definition logged :: "event list \<Rightarrow> state \<Rightarrow> state" where
  "logged es st = st\<lparr>events := events st @ es\<rparr>"

text \<open>\<^verbatim>\<open>_dl_wheel\<close>, as subprocess number \<open>i\<close>.\<close>

definition dl_wheel :: "world \<Rightarrow> nat \<Rightarrow> requirement \<Rightarrow> string list \<Rightarrow> completed_process" where
  "dl_wheel w i req additional_wheel_opts =
     (let cmd = [executable w, ''-m'', ''pip'', ''wheel'', ''--no-deps'']
                @ additional_wheel_opts @ [name req @ specifier req]
      in \<lparr>args = cmd, returncode = exit_code w i cmd\<rparr>)"

text \<open>The loop over the lines of the requirements file, extending \<^verbatim>\<open>wheel_cmd_opts\<close>.\<close>

fun wheel_cmd_opts_loop :: "string list \<Rightarrow> string list \<Rightarrow> string list" where
  "wheel_cmd_opts_loop opts [] = opts"
| "wheel_cmd_opts_loop opts (l # ls) =
     wheel_cmd_opts_loop (if startswith l ''--'' then opts @ py_split l else opts) ls"

text \<open>\<^verbatim>\<open>ex.map(f, xs, ys)\<close>: \<open>f\<close> on the pairs of the two lists, results in input order.\<close>

fun ex_map :: "(nat \<Rightarrow> 'a \<Rightarrow> 'b \<Rightarrow> 'c) \<Rightarrow> nat \<Rightarrow> 'a list \<Rightarrow> 'b list \<Rightarrow> 'c list" where
  "ex_map f i (x # xs) (y # ys) = f i x y # ex_map f (Suc i) xs ys"
| "ex_map f i _ _ = []"

text \<open>
  \<^verbatim>\<open>_fetch_packages_parallel\<close>. Leaving the \<^verbatim>\<open>with\<close> block waits for every worker, so all
  subprocesses have run before the exit codes are looked at; they are logged in the order
  of the requirements.
\<close>

definition fetch_packages_parallel :: "world \<Rightarrow> string \<Rightarrow> state \<Rightarrow> (error + unit) \<times> state" where
  "fetch_packages_parallel w requirements_filepath st =
     (case readlines w requirements_filepath of
        None \<Rightarrow> (Inl (FileNotFoundError requirements_filepath), st)
      | Some requirements_txt_lines \<Rightarrow>
          (let wheel_cmd_opts = wheel_cmd_opts_loop [] requirements_txt_lines in
           case parse_requirements w requirements_filepath of
             Inl e \<Rightarrow> (Inl e, st)
           | Inr parsed_reqs \<Rightarrow>
               (let completed_procs =
                      ex_map (dl_wheel w) 0 parsed_reqs
                        (map (\<lambda>_. wheel_cmd_opts) [0..<length parsed_reqs]);
                    st' = logged (map (\<lambda>p. Spawn (args p)) completed_procs) st;
                    failed_procs = filter (\<lambda>proc. returncode proc \<noteq> 0) completed_procs
                in if failed_procs \<noteq> [] then (Inl (RuntimeError (Processes failed_procs)), st')
                   else (Inr (), st'))))"

section \<open>entry\_points: the build-file targets\<close>

text \<open>
  \<^verbatim>\<open>str.format\<close> with keyword arguments, for templates whose replacement fields are plain
  names (no doubled braces, conversions or format specs, as in the template below). The
  second argument is the field being read, if any. Text substituted for a field is not
  scanned again.
\<close>

fun format_aux :: "(string \<times> string) list \<Rightarrow> string option \<Rightarrow> string \<Rightarrow> error + string" where
  "format_aux kw None [] = Inr []"
| "format_aux kw (Some n) [] = Inl (ValueError ''expected } before end of string'')"
| "format_aux kw None (c # cs) =
     (if c = CHR ''{'' then format_aux kw (Some []) cs
      else if c = CHR ''}'' then Inl (ValueError ''Single } encountered in format string'')
      else (case format_aux kw None cs of Inl e \<Rightarrow> Inl e | Inr r \<Rightarrow> Inr (c # r)))"
| "format_aux kw (Some n) (c # cs) =
     (if c = CHR ''}'' then
        (case map_of kw n of
           None \<Rightarrow> Inl (KeyError n)
         | Some v \<Rightarrow> (case format_aux kw None cs of Inl e \<Rightarrow> Inl e | Inr r \<Rightarrow> Inr (v @ r)))
      else format_aux kw (Some (n @ [c])) cs)"

definition py_format :: "string \<Rightarrow> (string \<times> string) list \<Rightarrow> error + string" where
  "py_format t kw = format_aux kw None t"

text \<open>\<^verbatim>\<open>sep.join(xs)\<close>.\<close>

fun py_join :: "string \<Rightarrow> string list \<Rightarrow> string" where
  "py_join sep [] = []"
| "py_join sep [x] = x"
| "py_join sep (x # y # ys) = x @ sep @ py_join sep (y # ys)"

text \<open>Evaluating a list of results from left to right: the first exception ends it.\<close>

fun collect :: "('e + 'a) list \<Rightarrow> 'e + 'a list" where
  "collect [] = Inr []"
| "collect (Inl e # rs) = Inl e"
| "collect (Inr x # rs) = (case collect rs of Inl e \<Rightarrow> Inl e | Inr xs \<Rightarrow> Inr (x # xs))"

text \<open>The template of \<^verbatim>\<open>_bazel_py_target_for_entry_point\<close>, line by line.\<close>

definition template :: string where
  \<open>template =
     ''py_binary(\<newline>'' @
     ''    name = "{rule}",\<newline>'' @
     ''    srcs = ["bin/{entry_point}.py"],\<newline>'' @
     ''    deps = [":{pkg_name}"],\<newline>'' @
     ''    visibility = ["//visibility:public"],\<newline>'' @
     ''    main = "bin/{entry_point}.py",\<newline>'' @
     '')\<newline>''\<close>

text \<open>The \<^verbatim>\<open>rule=\<close> argument: the f-string when the names clash, the name otherwise.\<close>

definition rule_kwarg :: "string \<Rightarrow> string \<Rightarrow> string" where
  "rule_kwarg pkg_name entry_point_name =
     (if entry_point_name = pkg_name then ''bin-'' @ entry_point_name else entry_point_name)"

definition bazel_py_target_for_entry_point :: "string \<Rightarrow> string \<Rightarrow> error + string" where
  "bazel_py_target_for_entry_point pkg_name entry_point_name =
     py_format template
       [(''rule'', rule_kwarg pkg_name entry_point_name),
        (''entry_point'', entry_point_name),
        (''pkg_name'', pkg_name)]"

definition entry_point_build_file_targets :: "string \<Rightarrow> string list \<Rightarrow> error + string" where
  "entry_point_build_file_targets pkg_name entry_point_names =
     (case collect (map (bazel_py_target_for_entry_point pkg_name) entry_point_names) of
        Inl e \<Rightarrow> Inl e
      | Inr blocks \<Rightarrow> Inr (py_join ''\<newline>'' blocks))"

text \<open>A world for the examples: two pinned requirements, the second of which fails.\<close>

definition example_world :: world where
  "example_world = \<lparr>executable = ''python'',
         readlines = (\<lambda>p. if p = ''r.txt''
            then Some [''--no-binary  :all:\<newline>'', ''flask==1\<newline>'', ''click==2''] else None),
         parse_requirements = (\<lambda>p. Inr [\<lparr>name = ''flask'', specifier = ''==1''\<rparr>,
                                        \<lparr>name = ''click'', specifier = ''==2''\<rparr>]),
         exit_code = (\<lambda>i c. if i = 1 then 1 else 0), stdout = (\<lambda>i c. []), wheels = [],
         parse_extras = (\<lambda>p. Inr []), extract_wheel = (\<lambda>f e. Inr f),
         generate_requirements_file_contents = (\<lambda>r ts. r)\<rparr>"

section \<open>extract\_wheels: the command line\<close>

text \<open>
  \<^verbatim>\<open>argparse\<close> belongs to the standard library; \<^verbatim>\<open>main\<close> declares the options and calls
  \<^verbatim>\<open>parse_args\<close>. What follows is \<^verbatim>\<open>ArgumentParser.parse_args\<close> of CPython 3.11 for a
  parser with these three options and the help option it adds by itself, no positional
  argument, prefix character \<^verbatim>\<open>-\<close> and abbreviations allowed. An error ends the process
  with status 2, help with status 0.
\<close>

datatype action = Help | Requirements | Repo | Precompiled

definition option_string_actions :: "(string \<times> action) list" where
  "option_string_actions =
     [(''-h'', Help), (''--help'', Help), (''--requirements'', Requirements),
      (''--repo'', Repo), (''--precompiled'', Precompiled)]"

record namespace =
  requirements :: "string option"
  repo :: "string option"
  precompiled :: bool

text \<open>
  An option tuple: the action (if the parser has one), the option string, whether an
  \<^verbatim>\<open>=\<close> separated an explicit argument, and the explicit argument.
\<close>

type_synonym option_tuple = "action option \<times> string \<times> bool \<times> string option"

text \<open>\<^verbatim>\<open>s.partition('=')\<close>: the text before the first \<^verbatim>\<open>=\<close>, whether there is one, the rest.\<close>

definition partition_eq :: "string \<Rightarrow> string \<times> bool \<times> string" where
  "partition_eq s =
     (takeWhile (\<lambda>c. c \<noteq> CHR ''='') s,
      dropWhile (\<lambda>c. c \<noteq> CHR ''='') s \<noteq> [],
      drop 1 (dropWhile (\<lambda>c. c \<noteq> CHR ''='') s))"

definition is_digit :: "char \<Rightarrow> bool" where
  "is_digit c \<longleftrightarrow> 48 \<le> (of_char c :: nat) \<and> (of_char c :: nat) \<le> 57"

text \<open>
  The parser's pattern for negative numbers, \<^verbatim>\<open>^-\d+$|^-\d*\.\d+$\<close>, where \<^verbatim>\<open>$\<close> also
  matches before a final newline.
\<close>

definition number_body :: "string \<Rightarrow> bool" where
  "number_body b \<longleftrightarrow>
     (b \<noteq> [] \<and> list_all is_digit b) \<or>
     (case dropWhile is_digit b of
        c # f \<Rightarrow> c = CHR ''.'' \<and> f \<noteq> [] \<and> list_all is_digit f
      | [] \<Rightarrow> False)"

definition negative_number :: "string \<Rightarrow> bool" where
  "negative_number s \<longleftrightarrow>
     (case s of
        c # b \<Rightarrow> c = CHR ''-'' \<and>
          (number_body b \<or> (b \<noteq> [] \<and> last b = CHR ''\<newline>'' \<and> number_body (butlast b)))
      | [] \<Rightarrow> False)"

text \<open>\<^verbatim>\<open>_get_option_tuples\<close>, for a string of at least two characters that starts with a dash.\<close>

definition get_option_tuples :: "string \<Rightarrow> option_tuple list" where
  "get_option_tuples option_string =
     (case option_string of
        c0 # c1 # _ \<Rightarrow>
          if c1 = CHR ''-'' then
            (case partition_eq option_string of
               (option_prefix, sep, explicit_arg) \<Rightarrow>
                 map (\<lambda>(os, a). (Some a, os, sep, if sep then Some explicit_arg else None))
                   (filter (\<lambda>(os, a). startswith os option_prefix) option_string_actions))
          else
            concat (map (\<lambda>(os, a).
                      if os = take 2 option_string
                      then [(Some a, os, False, Some (drop 2 option_string))]
                      else if startswith os option_string then [(Some a, os, False, None)]
                      else [])
                    option_string_actions)
      | _ \<Rightarrow> [])"

text \<open>\<^verbatim>\<open>_parse_optional\<close>: \<open>None\<close> for a positional argument, an exit for an ambiguous prefix.\<close>

definition parse_optional :: "string \<Rightarrow> error + option_tuple option" where
  "parse_optional arg_string =
     (case arg_string of
        [] \<Rightarrow> Inr None
      | c # _ \<Rightarrow>
          if c \<noteq> CHR ''-'' then Inr None
          else (case map_of option_string_actions arg_string of
             Some a \<Rightarrow> Inr (Some (Some a, arg_string, False, None))
           | None \<Rightarrow>
               if length arg_string = 1 then Inr None
               else (case partition_eq arg_string of
                 (option_string, sep, explicit_arg) \<Rightarrow>
                   (case (if sep then map_of option_string_actions option_string else None) of
                      Some a \<Rightarrow> Inr (Some (Some a, option_string, True, Some explicit_arg))
                    | None \<Rightarrow>
                        (case get_option_tuples arg_string of
                           _ # _ # _ \<Rightarrow> Inl (SystemExit 2)
                         | [option_tuple] \<Rightarrow> Inr (Some option_tuple)
                         | [] \<Rightarrow>
                             if negative_number arg_string then Inr None
                             else if CHR '' '' \<in> set arg_string then Inr None
                             else Inr (Some (None, arg_string, False, None)))))))"

text \<open>
  The first pass of \<^verbatim>\<open>_parse_known_args\<close>: an \<open>Opt\<close> for an option, an \<open>Arg\<close> for an
  argument, \<open>Sep\<close> for the separator \<^verbatim>\<open>--\<close>, after which everything is an argument.
\<close>

datatype slot = Arg | Sep | Opt option_tuple

fun scan :: "string list \<Rightarrow> error + slot list" where
  "scan [] = Inr []"
| "scan (arg_string # rest) =
     (if arg_string = ''--'' then Inr (Sep # map (\<lambda>_. Arg) rest)
      else (case parse_optional arg_string of
        Inl e \<Rightarrow> Inl e
      | Inr t \<Rightarrow>
          (case scan rest of
             Inl e \<Rightarrow> Inl e
           | Inr pattern \<Rightarrow> Inr ((case t of None \<Rightarrow> Arg | Some tup \<Rightarrow> Opt tup) # pattern))))"

text \<open>
  The loop of \<^verbatim>\<open>consume_optional\<close> on the characters that follow \<^verbatim>\<open>-h\<close> in one
  argument: true when it raises an error, false when it leaves the loop with the help
  action to take.
\<close>

fun cluster :: "bool \<Rightarrow> string \<Rightarrow> bool" where
  "cluster sep [] = True"
| "cluster sep (c # cs) =
     (if sep \<or> c = CHR ''-'' then True
      else if c = CHR ''h'' then
        (case cs of [] \<Rightarrow> False | d # _ \<Rightarrow> if d = CHR ''='' then True else cluster False cs)
      else False)"

text \<open>
  The second pass: arguments outside an option are unrecognised (the parser has no
  positional argument) and only remembered, since they are reported after the loop; an
  option with no explicit argument that stores a value takes the next string if that is
  an argument. The flag says whether an unrecognised argument was met.
\<close>

fun consume :: "namespace \<Rightarrow> bool \<Rightarrow> (string \<times> slot) list \<Rightarrow> error + namespace \<times> bool" where
  "consume ns extras [] = Inr (ns, extras)"
| "consume ns extras ((a, Arg) # r) = consume ns True r"
| "consume ns extras ((a, Sep) # r) = consume ns True r"
| "consume ns extras ((a, Opt (None, os, sep, explicit_arg)) # r) = consume ns True r"
| "consume ns extras ((a, Opt (Some Help, os, sep, None)) # r) = Inl (SystemExit 0)"
| "consume ns extras ((a, Opt (Some Help, os, sep, Some e)) # r) =
     (if os = ''-h'' \<and> \<not> cluster sep e then Inl (SystemExit 0) else Inl (SystemExit 2))"
| "consume ns extras ((a, Opt (Some Precompiled, os, sep, None)) # r) =
     consume (ns\<lparr>precompiled := True\<rparr>) extras r"
| "consume ns extras ((a, Opt (Some Precompiled, os, sep, Some e)) # r) = Inl (SystemExit 2)"
| "consume ns extras ((a, Opt (Some Requirements, os, sep, Some e)) # r) =
     consume (ns\<lparr>requirements := Some e\<rparr>) extras r"
| "consume ns extras ((a, Opt (Some Requirements, os, sep, None)) # r) =
     (case r of
        (v, Arg) # r' \<Rightarrow> consume (ns\<lparr>requirements := Some v\<rparr>) extras r'
      | _ \<Rightarrow> Inl (SystemExit 2))"
| "consume ns extras ((a, Opt (Some Repo, os, sep, Some e)) # r) =
     consume (ns\<lparr>repo := Some e\<rparr>) extras r"
| "consume ns extras ((a, Opt (Some Repo, os, sep, None)) # r) =
     (case r of
        (v, Arg) # r' \<Rightarrow> consume (ns\<lparr>repo := Some v\<rparr>) extras r'
      | _ \<Rightarrow> Inl (SystemExit 2))"

text \<open>
  \<^verbatim>\<open>parse_args\<close>: both passes, then the required options, then the unrecognised
  arguments.
\<close>

definition parse_args :: "string list \<Rightarrow> error + namespace" where
  "parse_args argv =
     (case scan argv of
        Inl e \<Rightarrow> Inl e
      | Inr pattern \<Rightarrow>
          (case consume \<lparr>requirements = None, repo = None, precompiled = False\<rparr> False
                  (zip argv pattern) of
             Inl e \<Rightarrow> Inl e
           | Inr (ns, extras) \<Rightarrow>
               if requirements ns = None \<or> repo ns = None then Inl (SystemExit 2)
               else if extras then Inl (SystemExit 2)
               else Inr ns))"

section \<open>extract\_wheels: the main program\<close>

text \<open>
  \<^verbatim>\<open>subprocess.check_output\<close>, for the first subprocess of a run: it returns the captured
  output, or raises \<^verbatim>\<open>CalledProcessError\<close> with the exit code, the command and the
  output when the exit code is not zero.
\<close>

definition check_output :: "world \<Rightarrow> string list \<Rightarrow> state \<Rightarrow> (error + string) \<times> state" where
  "check_output w cmd st =
     (let st' = logged [Spawn cmd] st
      in if exit_code w 0 cmd \<noteq> 0
         then (Inl (CalledProcessError (exit_code w 0 cmd) cmd (stdout w 0 cmd)), st')
         else (Inr (stdout w 0 cmd), st'))"

text \<open>
  The list comprehension over the wheels: each is extracted, and its target is the
  repository name and the wheel's suffix between double quotes.
\<close>

fun extract_all ::
  "world \<Rightarrow> string \<Rightarrow> extras \<Rightarrow> string list \<Rightarrow> state \<Rightarrow> (error + string list) \<times> state" where
  "extract_all w repo_name ex [] st = (Inr [], st)"
| "extract_all w repo_name ex (whl # whls) st =
     (let st1 = logged [Extract whl] st
      in case extract_wheel w whl ex of
           Inl e \<Rightarrow> (Inl e, st1)
         | Inr suffix \<Rightarrow>
             (case extract_all w repo_name ex whls st1 of
                (Inl e, st2) \<Rightarrow> (Inl e, st2)
              | (Inr targets, st2) \<Rightarrow>
                  (Inr ((CHR 0x22 # repo_name @ suffix @ [CHR 0x22]) # targets), st2)))"

text \<open>
  \<^verbatim>\<open>main\<close>, on the command line \<open>argv\<close> (without the program name). An exception ends
  the run where it is raised. After a successful \<^verbatim>\<open>parse_args\<close> both required options
  have a value; the last case stands for what Python would do with \<^verbatim>\<open>None\<close> there.
\<close>

definition main :: "world \<Rightarrow> string list \<Rightarrow> state \<Rightarrow> (error + unit) \<times> state" where
  "main w argv st0 =
     (let st = st0\<lparr>environ := configure_reproducible_wheels (environ st0)\<rparr>
      in case parse_args argv of
           Inl e \<Rightarrow> (Inl e, st)
         | Inr ns \<Rightarrow>
             (case (requirements ns, repo ns) of
                (Some requirements_path, Some repo_name) \<Rightarrow>
                  (let wheel_cmd =
                         [executable w, ''-m'', ''pip'', ''wheel'', ''-r'', requirements_path];
                       fetched =
                         (if precompiled ns
                          then fetch_packages_parallel w requirements_path st
                          else (case check_output w wheel_cmd st of
                                  (Inl e, st1) \<Rightarrow> (Inl e, st1)
                                | (Inr _, st1) \<Rightarrow> (Inr (), st1)))
                   in case fetched of
                        (Inl e, st1) \<Rightarrow> (Inl e, st1)
                      | (Inr _, st1) \<Rightarrow>
                          (case parse_extras w requirements_path of
                             Inl e \<Rightarrow> (Inl e, st1)
                           | Inr ex \<Rightarrow>
                               (case extract_all w repo_name ex (wheels w) st1 of
                                  (Inl e, st2) \<Rightarrow> (Inl e, st2)
                                | (Inr targets, st2) \<Rightarrow>
                                    (Inr (),
                                     logged [Write ''requirements.bzl''
                                        (generate_requirements_file_contents w repo_name targets)]
                                       st2))))
              | _ \<Rightarrow> (Inl (Raised ''TypeError''), st)))"

text \<open>A classified command line mentions an action when one of its options selects it.\<close>

definition mentions :: "action \<Rightarrow> (string \<times> slot) list \<Rightarrow> bool" where
  "mentions act zs \<longleftrightarrow> (\<exists>a os sep e. (a, Opt (Some act, os, sep, e)) \<in> set zs)"

text \<open>The example world with every subprocess failing.\<close>

definition failing_world :: world where
  "failing_world = example_world\<lparr>exit_code := (\<lambda>i c. 1)\<rparr>"

section \<open>entry\_points: installing the scripts\<close>

text \<open>
  A directory entry is a file with its content or a directory with its entries; the
  entries of a directory are listed in the order \<^verbatim>\<open>os.listdir\<close> gives them.
\<close>

datatype node = File string | Directory "(string \<times> node) list"

text \<open>
  What \<^verbatim>\<open>install_entry_points\<close> reads of a distribution found by \<^verbatim>\<open>pkg_resources\<close>: its
  key, its version and its entry map, from group to the entry points of the group, each
  with its name and with the text \<^verbatim>\<open>str\<close> gives for it.
\<close>

record distribution =
  key :: string
  version :: string
  entry_map :: "(string \<times> (string \<times> string) list) list"

text \<open>\<^verbatim>\<open>distribution.get_entry_map(group)\<close>: the group's entry points, none if it is absent.\<close>

definition get_entry_map :: "distribution \<Rightarrow> string \<Rightarrow> (string \<times> string) list" where
  "get_entry_map d grp = (case map_of (entry_map d) grp of None \<Rightarrow> [] | Some m \<Rightarrow> m)"

text \<open>
  The extracted wheel directory, as far as the function looks at it: the distributions
  \<^verbatim>\<open>pkg_resources.find_distributions\<close> yields for it (read from its metadata entries,
  which the function never writes) and its entry \<^verbatim>\<open>bin\<close>, if there is one.
\<close>

record extracted_whl =
  found :: "distribution list"
  bin :: "node option"

text \<open>\<^verbatim>\<open>os.path.join\<close> of a directory and a relative name.\<close>

definition path_join :: "string \<Rightarrow> string \<Rightarrow> string" where
  "path_join a b = (if a = [] \<or> last a = CHR ''/'' then a @ b else a @ ''/'' @ b)"

text \<open>
  \<^verbatim>\<open>os.rename\<close> of one entry of a directory to another name in it, on POSIX: the source
  must exist; an existing file is replaced by a file and an existing empty directory by
  a directory; any other existing destination is an error.
\<close>

definition os_rename ::
  "string \<Rightarrow> string \<Rightarrow> string \<Rightarrow> (string \<times> node) list \<Rightarrow> error + (string \<times> node) list" where
  "os_rename dir src dst es =
     (case map_of es src of
        None \<Rightarrow> Inl (FileNotFoundError (path_join dir src))
      | Some n \<Rightarrow>
          (case (n, map_of es dst) of
             (File _, Some (Directory _)) \<Rightarrow> Inl (IsADirectoryError (path_join dir dst))
           | (Directory _, Some (File _)) \<Rightarrow> Inl (NotADirectoryError (path_join dir dst))
           | (Directory _, Some (Directory (_ # _))) \<Rightarrow> Inl (OSError (path_join dir dst))
           | _ \<Rightarrow> Inr (AList.update dst n (AList.delete src es))))"

text \<open>
  The loop over \<^verbatim>\<open>os.listdir(bin_dir_path)\<close>: the listing is taken once, before the first
  renaming. The entries returned are those the loop leaves, also when it fails.
\<close>

fun rename_loop ::
  "string \<Rightarrow> string list \<Rightarrow> (string \<times> node) list \<Rightarrow> (error + unit) \<times> (string \<times> node) list" where
  "rename_loop dir [] es = (Inr (), es)"
| "rename_loop dir (f # fs) es =
     (if \<not> endswith f ''.py'' then
        (case os_rename dir f (f @ ''.py'') es of
           Inl e \<Rightarrow> (Inl e, es)
         | Inr es' \<Rightarrow> rename_loop dir fs es')
      else rename_loop dir fs es)"

text \<open>
  \<^verbatim>\<open>install_entry_points\<close>. The setuptools command \<^verbatim>\<open>install_scripts\<close> is a parameter: it
  is given the name, the version and the console scripts of the distribution built for
  it and the entries of \<^verbatim>\<open>bin\<close>, and leaves new entries, with or without an exception.
  What the command does outside \<^verbatim>\<open>bin\<close> is not part of the model.
\<close>

type_synonym install_scripts =
  "string \<Rightarrow> string \<Rightarrow> string list \<Rightarrow> (string \<times> node) list \<Rightarrow> (error + unit) \<times> (string \<times> node) list"

definition install_entry_points ::
  "install_scripts \<Rightarrow> string \<Rightarrow> extracted_whl \<Rightarrow> (error + string list) \<times> extracted_whl" where
  "install_entry_points scripts extracted_whl_directory d =
     (case found d of
        [] \<Rightarrow>
          (Inl (RuntimeError (Message
             (''Could not find in Python distribution in directory: '' @ extracted_whl_directory))),
           d)
      | dist # _ \<Rightarrow>
          (let entry_points = get_entry_map dist ''console_scripts'';
               bin_dir_path = path_join extracted_whl_directory ''bin''
           in case bin d of
                Some (File _) \<Rightarrow> (Inl (FileExistsError bin_dir_path), d)
              | b \<Rightarrow>
                  (let es0 = (case b of Some (Directory es) \<Rightarrow> es | _ \<Rightarrow> [])
                   in case scripts (key dist) (version dist) (map snd entry_points) es0 of
                        (Inl e, es1) \<Rightarrow> (Inl e, d\<lparr>bin := Some (Directory es1)\<rparr>)
                      | (Inr _, es1) \<Rightarrow>
                          (case rename_loop bin_dir_path (map fst es1) es1 of
                             (Inl e, es2) \<Rightarrow> (Inl e, d\<lparr>bin := Some (Directory es2)\<rparr>)
                           | (Inr _, es2) \<Rightarrow>
                               (Inr (map fst entry_points),
                                d\<lparr>bin := Some (Directory es2)\<rparr>)))))"

text \<open>
  An example of the parameter: for each console script \<^verbatim>\<open>name = module:function\<close> a file
  called \<^verbatim>\<open>name\<close> is written into \<^verbatim>\<open>bin\<close>, with the script's specification as its
  content.
\<close>

definition example_scripts :: install_scripts where
  "example_scripts nm ver console_scripts es =
     (Inr (),
      fold (\<lambda>spec es. AList.update (takeWhile (\<lambda>c. c \<noteq> CHR '' '') spec) (File spec) es)
        console_scripts es)"

text \<open>An extracted wheel with one console script and a file already in \<^verbatim>\<open>bin\<close>.\<close>

definition example_whl :: extracted_whl where
  "example_whl =
     \<lparr>found = [\<lparr>key = ''flask'', version = ''2.0.1'',
                entry_map = [(''console_scripts'', [(''flask'', ''flask = flask.cli:main'')])]\<rparr>],
      bin = Some (Directory [(''activate'', File ''#!/bin/sh'')])\<rparr>"

section \<open>The environment configurator\<close>

lemma configure_CFLAGS:
  "configure_reproducible_wheels env ''CFLAGS'' =
     Some (case env ''CFLAGS'' of Some v \<Rightarrow> v @ '' -g0'' | None \<Rightarrow> ''-g0'')"
  by (simp add: configure_reproducible_wheels_def Let_def split: option.split)

lemma configure_SOURCE_DATE_EPOCH:
  "configure_reproducible_wheels env ''SOURCE_DATE_EPOCH'' =
     Some (case env ''SOURCE_DATE_EPOCH'' of Some v \<Rightarrow> v | None \<Rightarrow> ''315532800'')"
  by (simp add: configure_reproducible_wheels_def Let_def split: option.split)

lemma configure_PYTHONHASHSEED:
  "configure_reproducible_wheels env ''PYTHONHASHSEED'' =
     Some (case env ''PYTHONHASHSEED'' of Some v \<Rightarrow> v | None \<Rightarrow> ''0'')"
  by (simp add: configure_reproducible_wheels_def Let_def split: option.split)

lemma configure_other:
  "x \<noteq> ''CFLAGS'' \<Longrightarrow> x \<noteq> ''SOURCE_DATE_EPOCH'' \<Longrightarrow> x \<noteq> ''PYTHONHASHSEED'' \<Longrightarrow>
   configure_reproducible_wheels env x = env x"
  by (simp add: configure_reproducible_wheels_def Let_def split: option.split)

text \<open>
  C1, as stated: configuring twice leaves the environment as configuring once does.
  It fails on the empty environment: the first run creates \<^verbatim>\<open>CFLAGS\<close> as \<^verbatim>\<open>-g0\<close>, the
  second appends to it and leaves \<^verbatim>\<open>-g0 -g0\<close>.
\<close>

theorem configure_twice_counterexample:
  "configure_reproducible_wheels (configure_reproducible_wheels Map.empty) ''CFLAGS''
     = Some ''-g0 -g0''
   \<and> configure_reproducible_wheels Map.empty ''CFLAGS'' = Some ''-g0''
   \<and> configure_reproducible_wheels (configure_reproducible_wheels Map.empty)
     \<noteq> configure_reproducible_wheels Map.empty"
proof -
  have a: "configure_reproducible_wheels (configure_reproducible_wheels Map.empty) ''CFLAGS''
     = Some ''-g0 -g0''"
    by (simp add: configure_CFLAGS)
  have b: "configure_reproducible_wheels Map.empty ''CFLAGS'' = Some ''-g0''"
    by (simp add: configure_CFLAGS)
  have c: "configure_reproducible_wheels (configure_reproducible_wheels Map.empty)
     \<noteq> configure_reproducible_wheels Map.empty"
  proof
    assume "configure_reproducible_wheels (configure_reproducible_wheels Map.empty)
      = configure_reproducible_wheels Map.empty"
    then have "configure_reproducible_wheels (configure_reproducible_wheels Map.empty) ''CFLAGS''
      = configure_reproducible_wheels Map.empty ''CFLAGS''"
      by (rule arg_cong)
    then show False
      unfolding a b by simp
  qed
  from a b c show ?thesis by (intro conjI)
qed

text \<open>
  C1, amended: a second run changes nothing but \<^verbatim>\<open>CFLAGS\<close>, which gets the flag
  appended once more. The timestamp variable, the hash-seed variable and every other
  variable have the same value after one run and after two.
\<close>

theorem configure_twice:
  "configure_reproducible_wheels (configure_reproducible_wheels env) =
     (configure_reproducible_wheels env)
       (''CFLAGS'' \<mapsto> the (configure_reproducible_wheels env ''CFLAGS'') @ '' -g0'')"
proof
  fix x
  show "configure_reproducible_wheels (configure_reproducible_wheels env) x =
     ((configure_reproducible_wheels env)
       (''CFLAGS'' \<mapsto> the (configure_reproducible_wheels env ''CFLAGS'') @ '' -g0'')) x"
  proof -
    consider "x = ''CFLAGS''" | "x = ''SOURCE_DATE_EPOCH''" | "x = ''PYTHONHASHSEED''"
      | "x \<noteq> ''CFLAGS''" "x \<noteq> ''SOURCE_DATE_EPOCH''" "x \<noteq> ''PYTHONHASHSEED''"
      by blast
    then show ?thesis
    proof cases
      case 1
      then show ?thesis by (simp add: configure_CFLAGS)
    next
      case 2
      then show ?thesis by (simp add: configure_SOURCE_DATE_EPOCH)
    next
      case 3
      then show ?thesis by (simp add: configure_PYTHONHASHSEED)
    next
      case 4
      then show ?thesis by (simp add: configure_other)
    qed
  qed
qed

theorem configure_twice_witness:
  "configure_reproducible_wheels
     (configure_reproducible_wheels [''CFLAGS'' \<mapsto> ''-O2'', ''PYTHONHASHSEED'' \<mapsto> ''7''])
   = (configure_reproducible_wheels [''CFLAGS'' \<mapsto> ''-O2'', ''PYTHONHASHSEED'' \<mapsto> ''7''])
       (''CFLAGS'' \<mapsto> ''-O2 -g0 -g0'')"
  using configure_twice [of "[''CFLAGS'' \<mapsto> ''-O2'', ''PYTHONHASHSEED'' \<mapsto> ''7'']"]
  by (simp add: configure_CFLAGS)

text \<open>
  C8: the timestamp and the hash seed are set to their fixed values only when unset and
  keep a value they already have; \<^verbatim>\<open>CFLAGS\<close> always gets the flag appended, and is
  created with the flag as its value when absent. No other variable changes.
\<close>

theorem configure_frame:
  "configure_reproducible_wheels env ''SOURCE_DATE_EPOCH'' =
     Some (case env ''SOURCE_DATE_EPOCH'' of Some v \<Rightarrow> v | None \<Rightarrow> ''315532800'')
   \<and> configure_reproducible_wheels env ''PYTHONHASHSEED'' =
     Some (case env ''PYTHONHASHSEED'' of Some v \<Rightarrow> v | None \<Rightarrow> ''0'')
   \<and> configure_reproducible_wheels env ''CFLAGS'' =
     Some (case env ''CFLAGS'' of Some v \<Rightarrow> v @ '' -g0'' | None \<Rightarrow> ''-g0'')
   \<and> (\<forall>x. x \<notin> {''CFLAGS'', ''SOURCE_DATE_EPOCH'', ''PYTHONHASHSEED''}
        \<longrightarrow> configure_reproducible_wheels env x = env x)"
  by (simp add: configure_CFLAGS configure_SOURCE_DATE_EPOCH configure_PYTHONHASHSEED
      configure_other)

theorem configure_frame_witness:
  "configure_reproducible_wheels [''SOURCE_DATE_EPOCH'' \<mapsto> ''1'', ''HOME'' \<mapsto> ''/root'']
     ''SOURCE_DATE_EPOCH'' = Some ''1''
   \<and> configure_reproducible_wheels [''SOURCE_DATE_EPOCH'' \<mapsto> ''1'', ''HOME'' \<mapsto> ''/root'']
     ''PYTHONHASHSEED'' = Some ''0''
   \<and> configure_reproducible_wheels [''SOURCE_DATE_EPOCH'' \<mapsto> ''1'', ''HOME'' \<mapsto> ''/root'']
     ''CFLAGS'' = Some ''-g0''
   \<and> configure_reproducible_wheels [''SOURCE_DATE_EPOCH'' \<mapsto> ''1'', ''HOME'' \<mapsto> ''/root'']
     ''HOME'' = Some ''/root''"
  using configure_frame [of "[''SOURCE_DATE_EPOCH'' \<mapsto> ''1'', ''HOME'' \<mapsto> ''/root'']"]
  by simp

section \<open>The entry-point target generator\<close>

lemma collect_Inr:
  "(\<And>x. x \<in> set xs \<Longrightarrow> f x = Inr (g x)) \<Longrightarrow> collect (map f xs) = Inr (map g xs)"
  by (induction xs) simp_all

text \<open>
  C5: the target's identifier is \<^verbatim>\<open>bin-\<close> followed by the name exactly when the
  entry-point name equals the package name, and the bare name otherwise. Either way the
  block names \<^verbatim>\<open>bin/{name}.py\<close> as its only source and as its main, depends on
  \<^verbatim>\<open>:{pkg_name}\<close> alone and is publicly visible. Formatting never fails, and
  \<^verbatim>\<open>entry_point_build_file_targets\<close> joins one such block per name with a newline.
\<close>

theorem entry_point_target:
  \<open>bazel_py_target_for_entry_point pkg ep =
     Inr (''py_binary(\<newline>    name = "'' @ rule_kwarg pkg ep @
          ''",\<newline>    srcs = ["bin/'' @ ep @
          ''.py"],\<newline>    deps = [":'' @ pkg @
          ''"],\<newline>    visibility = ["//visibility:public"],\<newline>    main = "bin/'' @ ep @
          ''.py",\<newline>)\<newline>'')
   \<and> (rule_kwarg pkg ep = ''bin-'' @ ep \<longleftrightarrow> ep = pkg)
   \<and> (ep \<noteq> pkg \<longrightarrow> rule_kwarg pkg ep = ep)
   \<and> entry_point_build_file_targets pkg eps =
       Inr (py_join ''\<newline>'' (map (\<lambda>e. projr (bazel_py_target_for_entry_point pkg e)) eps))\<close>
proof -
  have block: \<open>\<And>e. bazel_py_target_for_entry_point pkg e =
     Inr (''py_binary(\<newline>    name = "'' @ rule_kwarg pkg e @
          ''",\<newline>    srcs = ["bin/'' @ e @
          ''.py"],\<newline>    deps = [":'' @ pkg @
          ''"],\<newline>    visibility = ["//visibility:public"],\<newline>    main = "bin/'' @ e @
          ''.py",\<newline>)\<newline>'')\<close>
    by (simp add: bazel_py_target_for_entry_point_def py_format_def template_def)
  have ident: "rule_kwarg pkg ep = ''bin-'' @ ep \<longleftrightarrow> ep = pkg"
    by (simp add: rule_kwarg_def)
  have plain: "ep \<noteq> pkg \<longrightarrow> rule_kwarg pkg ep = ep"
    by (simp add: rule_kwarg_def)
  have "collect (map (bazel_py_target_for_entry_point pkg) eps) =
        Inr (map (\<lambda>e. projr (bazel_py_target_for_entry_point pkg e)) eps)"
    by (rule collect_Inr) (simp add: block)
  then have all: "entry_point_build_file_targets pkg eps =
       Inr (py_join ''\<newline>'' (map (\<lambda>e. projr (bazel_py_target_for_entry_point pkg e)) eps))"
    by (simp add: entry_point_build_file_targets_def)
  from block [of ep] ident plain all show ?thesis by (intro conjI)
qed

theorem entry_point_target_witness:
  \<open>bazel_py_target_for_entry_point ''flask'' ''flask'' =
     Inr (''py_binary(\<newline>    name = "bin-flask",\<newline>    srcs = ["bin/flask.py"],\<newline>'' @
          ''    deps = [":flask"],\<newline>    visibility = ["//visibility:public"],\<newline>'' @
          ''    main = "bin/flask.py",\<newline>)\<newline>'')
   \<and> rule_kwarg ''flask'' ''run'' = ''run''
   \<and> ''run'' \<noteq> ''flask''\<close>
  using entry_point_target [of "''flask''" "''flask''" "[]"]
    entry_point_target [of "''flask''" "''run''" "[]"]
  by (simp add: rule_kwarg_def)

section \<open>The parallel fetch\<close>

lemma split_aux_append:
  "isspace c \<Longrightarrow> split_aux cur (a @ c # b) = split_aux cur a @ split_aux [] b"
  by (induction a arbitrary: cur) simp_all

lemma split_aux_token:
  "\<forall>c\<in>set t. \<not> isspace c \<Longrightarrow> split_aux cur t = (if cur @ t = [] then [] else [cur @ t])"
  by (induction t arbitrary: cur) simp_all

lemma py_split_append: "isspace c \<Longrightarrow> py_split (a @ c # b) = py_split a @ py_split b"
  by (simp add: py_split_def split_aux_append)

lemma py_split_token: "t \<noteq> [] \<Longrightarrow> \<forall>c\<in>set t. \<not> isspace c \<Longrightarrow> py_split t = [t]"
  by (simp add: py_split_def split_aux_token)

lemma wheel_cmd_opts_loop_eq:
  "wheel_cmd_opts_loop opts ls =
     opts @ concat (map py_split (filter (\<lambda>l. startswith l ''--'') ls))"
  by (induction ls arbitrary: opts) simp_all

lemma ex_map_const:
  "ex_map f i xs (map (\<lambda>_. c) [0..<length xs]) = map (\<lambda>k. f (i + k) (xs ! k) c) [0..<length xs]"
proof (induction xs arbitrary: i)
  case Nil
  then show ?case by simp
next
  case (Cons x xs)
  have "ex_map f i (x # xs) (map (\<lambda>_. c) [0..<length (x # xs)])
        = f i x c # ex_map f (Suc i) xs (map (\<lambda>_. c) [0..<length xs])"
    by (simp add: upt_conv_Cons map_replicate_const del: upt_Suc)
  also have "\<dots> = f i x c # map (\<lambda>k. f (Suc i + k) (xs ! k) c) [0..<length xs]"
    by (simp only: Cons.IH)
  also have "\<dots> = map (\<lambda>k. f (i + k) ((x # xs) ! k) c) [0..<length (x # xs)]"
    by (simp add: upt_conv_Cons map_Suc_upt [symmetric] del: upt_Suc)
  finally show ?case .
qed

lemma fetch_unfold:
  assumes "readlines w path = Some lines" and "parse_requirements w path = Inr reqs"
  shows "fetch_packages_parallel w path st =
    (let procs = map (\<lambda>k. dl_wheel w k (reqs ! k) (wheel_cmd_opts_loop [] lines)) [0..<length reqs];
         st' = logged (map (\<lambda>p. Spawn (args p)) procs) st;
         failed = filter (\<lambda>p. returncode p \<noteq> 0) procs
     in if failed \<noteq> [] then (Inl (RuntimeError (Processes failed)), st') else (Inr (), st'))"
  using assms
  by (simp add: fetch_packages_parallel_def ex_map_const Let_def del: upt_Suc)

text \<open>
  C3: in parallel mode the option list is the tokens of the lines starting with
  \<^verbatim>\<open>--\<close>, in file order, each such line split at whitespace (the space among it, and the
  newline that ends the line); one subprocess runs per parsed requirement, in order, and
  its command is the interpreter, \<^verbatim>\<open>-m pip wheel --no-deps\<close>, the whole option list, and
  the requirement's name followed by its specifier.
\<close>

theorem parallel_fetch_commands:
  assumes "readlines w path = Some lines" and "parse_requirements w path = Inr reqs"
  shows "events (snd (fetch_packages_parallel w path st)) =
           events st @
           map (\<lambda>r. Spawn ([executable w, ''-m'', ''pip'', ''wheel'', ''--no-deps'']
                            @ concat (map py_split (filter (\<lambda>l. startswith l ''--'') lines))
                            @ [name r @ specifier r])) reqs
         \<and> isspace CHR '' '' \<and> isspace CHR ''\<newline>''
         \<and> py_split [] = []
         \<and> (\<forall>a c b. isspace c \<longrightarrow> py_split (a @ c # b) = py_split a @ py_split b)
         \<and> (\<forall>t. t \<noteq> [] \<and> (\<forall>c\<in>set t. \<not> isspace c) \<longrightarrow> py_split t = [t])"
proof -
  have "map (\<lambda>k. Spawn (args (dl_wheel w k (reqs ! k) opts))) [0..<length reqs] =
        map (\<lambda>r. Spawn ([executable w, ''-m'', ''pip'', ''wheel'', ''--no-deps'']
                            @ opts @ [name r @ specifier r])) reqs" for opts
    by (rule nth_equalityI) (simp_all add: dl_wheel_def Let_def del: upt_Suc)
  then have ev: "events (snd (fetch_packages_parallel w path st)) =
           events st @
           map (\<lambda>r. Spawn ([executable w, ''-m'', ''pip'', ''wheel'', ''--no-deps'']
                            @ concat (map py_split (filter (\<lambda>l. startswith l ''--'') lines))
                            @ [name r @ specifier r])) reqs"
    by (simp add: fetch_unfold [OF assms] Let_def logged_def wheel_cmd_opts_loop_eq comp_def
        del: upt_Suc)
  have sp: "isspace CHR '' ''" "isspace CHR ''\<newline>''" "py_split [] = []"
    by (simp_all add: isspace_def py_split_def)
  from ev sp py_split_append py_split_token show ?thesis
    by blast
qed

theorem parallel_fetch_commands_witness:
  "events (snd (fetch_packages_parallel example_world ''r.txt'' \<lparr>environ = Map.empty, events = []\<rparr>)) =
     [Spawn [''python'', ''-m'', ''pip'', ''wheel'', ''--no-deps'', ''--no-binary'', '':all:'',
             ''flask==1''],
      Spawn [''python'', ''-m'', ''pip'', ''wheel'', ''--no-deps'', ''--no-binary'', '':all:'',
             ''click==2'']]
   \<and> py_split (''--no-binary'' @ CHR '' '' # '':all:'') = [''--no-binary'', '':all:'']"
proof -
  have r: "readlines example_world ''r.txt''
             = Some [''--no-binary  :all:\<newline>'', ''flask==1\<newline>'', ''click==2'']"
    by (simp add: example_world_def)
  have p: "parse_requirements example_world ''r.txt'' = Inr [\<lparr>name = ''flask'', specifier = ''==1''\<rparr>,
                                        \<lparr>name = ''click'', specifier = ''==2''\<rparr>]"
    by (simp add: example_world_def)
  have e: "executable example_world = ''python''"
    by (simp add: example_world_def)
  have t: "py_split ''--no-binary  :all:\<newline>'' = [''--no-binary'', '':all:'']"
    by (simp add: py_split_def isspace_def)
  have t2: "py_split ''--no-binary :all:'' = [''--no-binary'', '':all:'']"
    by (simp add: py_split_def isspace_def)
  show ?thesis
    using parallel_fetch_commands [OF r p, of "\<lparr>environ = Map.empty, events = []\<rparr>"]
    by (simp add: e t t2 startswith_def)
qed

text \<open>
  C2: once the file is read and parsed, every subprocess runs to completion whatever the
  others return; the operation then returns normally exactly when every exit code is
  zero, and otherwise raises a \<^verbatim>\<open>RuntimeError\<close> carrying exactly the processes with a
  non-zero exit code, in the order of their requirements.
\<close>

theorem parallel_fetch_result:
  assumes "readlines w path = Some lines" and "parse_requirements w path = Inr reqs"
  shows "let procs = map (\<lambda>k. dl_wheel w k (reqs ! k) (wheel_cmd_opts_loop [] lines))
                       [0..<length reqs];
             res = fst (fetch_packages_parallel w path st);
             st' = snd (fetch_packages_parallel w path st)
         in events st' = events st @ map (\<lambda>p. Spawn (args p)) procs
          \<and> environ st' = environ st
          \<and> (\<forall>k < length reqs. returncode (procs ! k) = exit_code w k (args (procs ! k)))
          \<and> (res = Inr () \<longleftrightarrow> (\<forall>p \<in> set procs. returncode p = 0))
          \<and> (res \<noteq> Inr () \<longleftrightarrow> (\<exists>p \<in> set procs. returncode p \<noteq> 0))
          \<and> (res \<noteq> Inr () \<longrightarrow>
               res = Inl (RuntimeError (Processes (filter (\<lambda>p. returncode p \<noteq> 0) procs))))"
proof -
  define procs where
    "procs = map (\<lambda>k. dl_wheel w k (reqs ! k) (wheel_cmd_opts_loop [] lines)) [0..<length reqs]"
  have f: "fetch_packages_parallel w path st =
      (if filter (\<lambda>p. returncode p \<noteq> 0) procs \<noteq> []
       then (Inl (RuntimeError (Processes (filter (\<lambda>p. returncode p \<noteq> 0) procs))),
             logged (map (\<lambda>p. Spawn (args p)) procs) st)
       else (Inr (), logged (map (\<lambda>p. Spawn (args p)) procs) st))"
    unfolding procs_def fetch_unfold [OF assms] Let_def ..
  have rc: "\<forall>k < length reqs. returncode (procs ! k) = exit_code w k (args (procs ! k))"
    by (simp add: procs_def dl_wheel_def Let_def del: upt_Suc)
  have ne: "filter (\<lambda>p. returncode p \<noteq> 0) procs \<noteq> [] \<longleftrightarrow> (\<exists>p \<in> set procs. returncode p \<noteq> 0)"
    by (simp add: filter_empty_conv)
  have "events (snd (fetch_packages_parallel w path st))
          = events st @ map (\<lambda>p. Spawn (args p)) procs"
    and "environ (snd (fetch_packages_parallel w path st)) = environ st"
    and "fst (fetch_packages_parallel w path st) = Inr () \<longleftrightarrow> (\<forall>p \<in> set procs. returncode p = 0)"
    and "fst (fetch_packages_parallel w path st) \<noteq> Inr ()
           \<longleftrightarrow> (\<exists>p \<in> set procs. returncode p \<noteq> 0)"
    and "fst (fetch_packages_parallel w path st) \<noteq> Inr () \<longrightarrow>
           fst (fetch_packages_parallel w path st)
             = Inl (RuntimeError (Processes (filter (\<lambda>p. returncode p \<noteq> 0) procs)))"
    unfolding f ne by (auto simp: logged_def)
  with rc show ?thesis
    unfolding Let_def procs_def [symmetric] by blast
qed

theorem parallel_fetch_result_witness:
  "fst (fetch_packages_parallel example_world ''r.txt'' \<lparr>environ = Map.empty, events = []\<rparr>) =
     Inl (RuntimeError (Processes
       [\<lparr>args = [''python'', ''-m'', ''pip'', ''wheel'', ''--no-deps'', ''--no-binary'',
                 '':all:'', ''click==2''],
         returncode = 1\<rparr>]))
   \<and> length (events (snd (fetch_packages_parallel example_world ''r.txt''
        \<lparr>environ = Map.empty, events = []\<rparr>))) = 2"
proof -
  have r: "readlines example_world ''r.txt''
             = Some [''--no-binary  :all:\<newline>'', ''flask==1\<newline>'', ''click==2'']"
    by (simp add: example_world_def)
  have p: "parse_requirements example_world ''r.txt'' = Inr [\<lparr>name = ''flask'', specifier = ''==1''\<rparr>,
                                        \<lparr>name = ''click'', specifier = ''==2''\<rparr>]"
    by (simp add: example_world_def)
  have e: "executable example_world = ''python''" "exit_code example_world = (\<lambda>i c. if i = 1 then 1 else 0)"
    by (simp_all add: example_world_def)
  have t: "py_split ''--no-binary  :all:\<newline>'' = [''--no-binary'', '':all:'']"
    by (simp add: py_split_def isspace_def)
  have u: "[0..<2] = [0, 1]"
    by (simp add: upt_conv_Cons)
  show ?thesis
    using parallel_fetch_result [OF r p, of "\<lparr>environ = Map.empty, events = []\<rparr>"]
    by (simp add: Let_def e t u startswith_def dl_wheel_def)
qed

section \<open>The command line and the sequential fetch\<close>

lemma startswith_Nil: "startswith [] p \<longleftrightarrow> p = []"
  by (auto simp: startswith_def)

lemma startswith_Cons:
  "startswith (c # s) p \<longleftrightarrow> p = [] \<or> (\<exists>q. p = c # q \<and> startswith s q)"
  by (cases p) (auto simp: startswith_def)

lemma startswith_append: "startswith (p @ r) p"
  by (simp add: startswith_def)

lemma startswith_trans: "startswith s p \<Longrightarrow> startswith p q \<Longrightarrow> startswith s q"
  unfolding startswith_def
  by (metis append_eq_conv_conj append_take_drop_id append.assoc)

lemma startswith_takeWhile: "startswith t (takeWhile P t)"
  by (metis startswith_append takeWhile_dropWhile_id)

lemma map_of_osa:
  "map_of option_string_actions s = Some a \<Longrightarrow>
     (s = ''-h'' \<and> a = Help) \<or> (s = ''--help'' \<and> a = Help)
     \<or> (s = ''--requirements'' \<and> a = Requirements) \<or> (s = ''--repo'' \<and> a = Repo)
     \<or> (s = ''--precompiled'' \<and> a = Precompiled)"
  by (simp add: option_string_actions_def split: if_splits)

lemma get_option_tuples_long:
  "t = c0 # CHR ''-'' # t2 \<Longrightarrow>
   get_option_tuples t =
     map (\<lambda>(os, a). (Some a, os, fst (snd (partition_eq t)),
            if fst (snd (partition_eq t)) then Some (snd (snd (partition_eq t))) else None))
       (filter (\<lambda>(os, a). startswith os (fst (partition_eq t))) option_string_actions)"
  by (simp add: get_option_tuples_def split: prod.splits)

lemma get_option_tuples_short:
  "t = c0 # c1 # t2 \<Longrightarrow> c1 \<noteq> CHR ''-'' \<Longrightarrow> get_option_tuples t = [(Some a, os, sep, e)] \<Longrightarrow>
   a = Help \<and> startswith t ''-h''"
  by (auto simp: get_option_tuples_def option_string_actions_def startswith_def
      split: if_splits)

lemma filter_single:
  assumes "map f (filter P xs) = [x]"
  obtains y where "x = f y" and "y \<in> set xs" and "P y" and "\<And>z. z \<in> set xs \<Longrightarrow> P z \<Longrightarrow> z = y"
proof -
  from assms obtain y where y: "filter P xs = [y]" and x: "x = f y"
    by (cases "filter P xs") auto
  have "set (filter P xs) = {y}"
    by (simp add: y)
  then have "y \<in> set xs" "P y" "\<And>z. z \<in> set xs \<Longrightarrow> P z \<Longrightarrow> z = y"
    by auto
  with x that show thesis by blast
qed

lemma prefix_repo:
  "startswith ''--repo'' pre \<Longrightarrow> \<not> startswith ''--requirements'' pre \<Longrightarrow>
   pre = ''--rep'' \<or> pre = ''--repo''"
  by (auto simp: startswith_Nil startswith_Cons)

lemma prefix_requirements:
  "startswith ''--requirements'' pre \<Longrightarrow> \<not> startswith ''--repo'' pre \<Longrightarrow>
   startswith pre ''--req''"
  by (auto simp: startswith_Nil startswith_Cons)

lemma prefix_help:
  "startswith ''--help'' pre \<Longrightarrow> \<not> startswith ''--repo'' pre \<Longrightarrow> startswith pre ''--h''"
  by (auto simp: startswith_Nil startswith_Cons)

lemma prefix_precompiled:
  "startswith ''--precompiled'' pre \<Longrightarrow> \<not> startswith ''--repo'' pre \<Longrightarrow> startswith pre ''--p''"
  by (auto simp: startswith_Nil startswith_Cons)

lemma prefix_h:
  "startswith ''-h'' pre \<Longrightarrow> \<not> startswith ''--repo'' pre \<Longrightarrow> pre = ''-h''"
  by (auto simp: startswith_Nil startswith_Cons)

lemma filter_osa_single:
  assumes "map f (filter (\<lambda>(os, a). startswith os pre) option_string_actions) = [x]"
  shows "(x = f (''--help'', Help) \<and> startswith pre ''--h'')
       \<or> (x = f (''--requirements'', Requirements) \<and> startswith pre ''--req'')
       \<or> (x = f (''--repo'', Repo) \<and> startswith pre ''--rep'')
       \<or> (x = f (''--precompiled'', Precompiled) \<and> startswith pre ''--p'')
       \<or> (x = f (''-h'', Help) \<and> pre = ''-h'')"
proof (rule filter_single [OF assms])
  fix y
  assume x: "x = f y" and y: "y \<in> set option_string_actions"
    and p: "case y of (os, a) \<Rightarrow> startswith os pre"
    and u: "\<And>z. z \<in> set option_string_actions \<Longrightarrow> (case z of (os, a) \<Rightarrow> startswith os pre)
              \<Longrightarrow> z = y"
  have repo: "y \<noteq> (''--repo'', Repo) \<Longrightarrow> \<not> startswith ''--repo'' pre"
    using u [of "(''--repo'', Repo)"] by (auto simp: option_string_actions_def)
  have reqs: "y \<noteq> (''--requirements'', Requirements) \<Longrightarrow> \<not> startswith ''--requirements'' pre"
    using u [of "(''--requirements'', Requirements)"] by (auto simp: option_string_actions_def)
  from y consider "y = (''-h'', Help)" | "y = (''--help'', Help)"
    | "y = (''--requirements'', Requirements)" | "y = (''--repo'', Repo)"
    | "y = (''--precompiled'', Precompiled)"
    by (auto simp: option_string_actions_def)
  then show ?thesis
  proof cases
    case 1
    with p repo have "pre = ''-h''" by (simp add: prefix_h)
    with x 1 show ?thesis by simp
  next
    case 2
    with p repo have "startswith pre ''--h''" by (simp add: prefix_help)
    with x 2 show ?thesis by simp
  next
    case 3
    with p repo have "startswith pre ''--req''" by (simp add: prefix_requirements)
    with x 3 show ?thesis by simp
  next
    case 4
    with p reqs have "pre = ''--rep'' \<or> pre = ''--repo''" by (simp add: prefix_repo)
    then have "startswith pre ''--rep''" by (auto simp: startswith_def)
    with x 4 show ?thesis by simp
  next
    case 5
    with p repo have "startswith pre ''--p''" by (simp add: prefix_precompiled)
    with x 5 show ?thesis by simp
  qed
qed

lemma get_option_tuples_single:
  assumes "get_option_tuples t = [(Some a, os, sep, e)]"
  shows "(a = Help \<and> (startswith t ''-h'' \<or> startswith t ''--h''))
       \<or> (a = Requirements \<and> startswith t ''--req'')
       \<or> (a = Repo \<and> startswith t ''--rep'')
       \<or> (a = Precompiled \<and> startswith t ''--p'')"
proof -
  from assms obtain c0 c1 t2 where t: "t = c0 # c1 # t2"
    by (cases t; cases "tl t") (auto simp: get_option_tuples_def)
  show ?thesis
  proof (cases "c1 = CHR ''-''")
    case True
    have pre: "startswith t (fst (partition_eq t))"
      unfolding partition_eq_def fst_conv by (rule startswith_takeWhile)
    from t True have "t = c0 # CHR ''-'' # t2" by simp
    from filter_osa_single [OF assms [unfolded get_option_tuples_long [OF this]]]
    have "(a = Help \<and> startswith (fst (partition_eq t)) ''--h'')
       \<or> (a = Requirements \<and> startswith (fst (partition_eq t)) ''--req'')
       \<or> (a = Repo \<and> startswith (fst (partition_eq t)) ''--rep'')
       \<or> (a = Precompiled \<and> startswith (fst (partition_eq t)) ''--p'')
       \<or> (a = Help \<and> fst (partition_eq t) = ''-h'')"
      by auto
    moreover have "fst (partition_eq t) \<noteq> ''-h''"
      using t True by (auto simp: partition_eq_def)
    ultimately show ?thesis
      using pre by (blast intro: startswith_trans)
  next
    case False
    from get_option_tuples_short [OF t False assms] show ?thesis by simp
  qed
qed

lemma parse_optional_action:
  assumes "parse_optional t = Inr (Some (Some a, os, sep, e))"
  shows "(a = Help \<and> (startswith t ''-h'' \<or> startswith t ''--h''))
       \<or> (a = Requirements \<and> startswith t ''--req'')
       \<or> (a = Repo \<and> startswith t ''--rep'')
       \<or> (a = Precompiled \<and> startswith t ''--p'')"
proof (cases "map_of option_string_actions t")
  case (Some b)
  with assms have "a = b"
    by (auto simp: parse_optional_def split: list.splits if_splits)
  with map_of_osa [OF Some] show ?thesis
    by (auto simp: startswith_def)
next
  case None
  note exact = None
  define pre where "pre = fst (partition_eq t)"
  have pre: "startswith t pre"
    unfolding pre_def partition_eq_def fst_conv by (rule startswith_takeWhile)
  show ?thesis
  proof (cases "fst (snd (partition_eq t)) \<and> map_of option_string_actions pre \<noteq> None")
    case True
    then obtain b where b: "map_of option_string_actions pre = Some b" by auto
    with assms exact True have "a = b"
      by (auto simp: parse_optional_def pre_def split: list.splits if_splits prod.splits)
    with map_of_osa [OF b] have "(a = Help \<and> (startswith pre ''-h'' \<or> startswith pre ''--h''))
       \<or> (a = Requirements \<and> startswith pre ''--req'')
       \<or> (a = Repo \<and> startswith pre ''--rep'')
       \<or> (a = Precompiled \<and> startswith pre ''--p'')"
      by (auto simp: startswith_def)
    with pre show ?thesis
      by (blast intro: startswith_trans)
  next
    case False
    with assms exact have "get_option_tuples t = [(Some a, os, sep, e)]"
      by (auto simp: parse_optional_def pre_def split: list.splits if_splits prod.splits)
    then show ?thesis by (rule get_option_tuples_single)
  qed
qed

lemma parse_optional_error: "parse_optional t = Inl err \<Longrightarrow> err = SystemExit 2"
  by (auto simp: parse_optional_def split: list.splits if_splits prod.splits option.splits)

lemma parse_optional_plain: "\<not> startswith t ''-'' \<Longrightarrow> parse_optional t = Inr None"
  by (cases t) (auto simp: parse_optional_def startswith_def)

lemma parse_optional_exact:
  "parse_optional ''--requirements'' = Inr (Some (Some Requirements, ''--requirements'', False, None))"
  "parse_optional ''--repo'' = Inr (Some (Some Repo, ''--repo'', False, None))"
  by (simp_all add: parse_optional_def option_string_actions_def)

lemma scan_error: "scan argv = Inl err \<Longrightarrow> err = SystemExit 2"
  by (induction argv) (auto split: if_splits sum.splits dest: parse_optional_error)

lemma scan_opt:
  "scan argv = Inr pattern \<Longrightarrow> (a, Opt tup) \<in> set (zip argv pattern) \<Longrightarrow>
   parse_optional a = Inr (Some tup)"
proof (induction argv arbitrary: pattern)
  case Nil
  then show ?case by simp
next
  case (Cons x argv)
  show ?case
  proof (cases "x = ''--''")
    case True
    with Cons.prems have "pattern = Sep # map (\<lambda>_. Arg) argv" by simp
    with Cons.prems(2) show ?thesis
      by (auto simp: zip_map2 dest: set_zip_rightD)
  next
    case False
    with Cons.prems(1) obtain t rest where t: "parse_optional x = Inr t"
      and rest: "scan argv = Inr rest"
      and p: "pattern = (case t of None \<Rightarrow> Arg | Some tup \<Rightarrow> Opt tup) # rest"
      by (auto split: sum.splits)
    from Cons.prems(2) p consider "a = x" "Opt tup = (case t of None \<Rightarrow> Arg | Some tup \<Rightarrow> Opt tup)"
      | "(a, Opt tup) \<in> set (zip argv rest)"
      by auto
    then show ?thesis
    proof cases
      case 1
      with t show ?thesis by (auto split: option.splits)
    next
      case 2
      with Cons.IH [OF rest] show ?thesis .
    qed
  qed
qed


lemma mentions_Cons:
  "mentions act ((a, s) # zs) \<longleftrightarrow> (\<exists>os sep e. s = Opt (Some act, os, sep, e)) \<or> mentions act zs"
  by (auto simp: mentions_def)

lemma mentions_Nil: "\<not> mentions act []"
  by (simp add: mentions_def)

lemma consume_repo:
  "\<not> mentions Repo zs \<Longrightarrow> consume ns ex zs = Inr (ns', ex') \<Longrightarrow> repo ns' = repo ns"
  by (induction ns ex zs rule: consume.induct)
    (auto simp: mentions_Cons split: list.splits prod.splits slot.splits if_splits)

lemma consume_requirements:
  "\<not> mentions Requirements zs \<Longrightarrow> consume ns ex zs = Inr (ns', ex') \<Longrightarrow>
   requirements ns' = requirements ns"
  by (induction ns ex zs rule: consume.induct)
    (auto simp: mentions_Cons split: list.splits prod.splits slot.splits if_splits)

lemma consume_error:
  "consume ns ex zs = Inl err \<Longrightarrow>
   err = SystemExit 2 \<or> (err = SystemExit 0 \<and> mentions Help zs)"
  by (induction ns ex zs rule: consume.induct)
    (auto simp: mentions_Cons split: list.splits prod.splits slot.splits if_splits)

lemma mentions_scan:
  assumes "scan argv = Inr pattern" and "mentions act (zip argv pattern)"
  shows "\<exists>t\<in>set argv. \<exists>os sep e. parse_optional t = Inr (Some (Some act, os, sep, e))"
proof -
  from assms(2) obtain a os sep e where m: "(a, Opt (Some act, os, sep, e)) \<in> set (zip argv pattern)"
    by (auto simp: mentions_def)
  then have "a \<in> set argv"
    by (rule set_zip_leftD)
  with scan_opt [OF assms(1) m] show ?thesis by blast
qed

lemma parse_args_error:
  assumes "parse_args argv = Inl err"
  shows "err = SystemExit 2 \<or>
         (err = SystemExit 0 \<and> (\<exists>t\<in>set argv. startswith t ''-h'' \<or> startswith t ''--h''))"
proof (cases "scan argv")
  case (Inl e)
  with assms scan_error [OF Inl] show ?thesis
    by (simp add: parse_args_def)
next
  case (Inr pattern)
  show ?thesis
  proof (cases "consume \<lparr>requirements = None, repo = None, precompiled = False\<rparr> False
                  (zip argv pattern)")
    case (Inl e)
    with assms Inr have e: "err = e"
      by (simp add: parse_args_def)
    from consume_error [OF Inl] e consider "err = SystemExit 2"
      | "err = SystemExit 0" "mentions Help (zip argv pattern)"
      by blast
    then show ?thesis
    proof cases
      case 1
      then show ?thesis by simp
    next
      case 2
      from mentions_scan [OF Inr 2(2)] obtain t os sep e
        where "t \<in> set argv" "parse_optional t = Inr (Some (Some Help, os, sep, e))"
        by blast
      with parse_optional_action [of t Help os sep e] 2(1) show ?thesis
        by auto
    qed
  next
    case (Inr r)
    with assms \<open>scan argv = Inr pattern\<close> show ?thesis
      by (cases r) (auto simp: parse_args_def split: if_splits)
  qed
qed

lemma parse_args_ok:
  assumes "parse_args argv = Inr ns"
  shows "\<exists>p r. requirements ns = Some p \<and> repo ns = Some r"
  using assms
  by (auto simp: parse_args_def split: sum.splits prod.splits if_splits)

lemma parse_args_needs:
  assumes "parse_args argv = Inr ns"
  shows "(\<exists>t\<in>set argv. startswith t ''--req'') \<and> (\<exists>t\<in>set argv. startswith t ''--rep'')"
proof -
  from assms obtain pattern ex where s: "scan argv = Inr pattern"
    and c: "consume \<lparr>requirements = None, repo = None, precompiled = False\<rparr> False
              (zip argv pattern) = Inr (ns, ex)"
    and v: "requirements ns \<noteq> None" "repo ns \<noteq> None"
    by (auto simp: parse_args_def split: sum.splits prod.splits if_splits)
  have "mentions Requirements (zip argv pattern)"
    using consume_requirements [OF _ c] v by auto
  from mentions_scan [OF s this] have 1: "\<exists>t\<in>set argv. startswith t ''--req''"
    using parse_optional_action by blast
  have "mentions Repo (zip argv pattern)"
    using consume_repo [OF _ c] v by auto
  from mentions_scan [OF s this] have 2: "\<exists>t\<in>set argv. startswith t ''--rep''"
    using parse_optional_action by blast
  from 1 2 show ?thesis ..
qed

lemma parse_args_plain:
  assumes "\<not> startswith p ''-''" and "\<not> startswith r ''-''"
  shows "parse_args [''--requirements'', p, ''--repo'', r] =
           Inr \<lparr>requirements = Some p, repo = Some r, precompiled = False\<rparr>"
proof -
  from assms have ne: "p \<noteq> ''--''" "r \<noteq> ''--''"
    by (auto simp: startswith_def)
  have "scan [''--requirements'', p, ''--repo'', r] =
          Inr [Opt (Some Requirements, ''--requirements'', False, None), Arg,
               Opt (Some Repo, ''--repo'', False, None), Arg]"
    using ne by (simp add: parse_optional_exact parse_optional_plain [OF assms(1)]
        parse_optional_plain [OF assms(2)])
  then show ?thesis
    by (simp add: parse_args_def)
qed

lemma extract_all_events:
  "\<exists>k. events (snd (extract_all w r ex whls st)) = events st @ map Extract (take k whls)"
proof (induction whls arbitrary: st)
  case Nil
  then show ?case by simp
next
  case (Cons whl whls)
  show ?case
  proof (cases "extract_wheel w whl ex")
    case (Inl e)
    then have "events (snd (extract_all w r ex (whl # whls) st))
                 = events st @ map Extract (take 1 (whl # whls))"
      by (simp add: logged_def)
    then show ?thesis ..
  next
    case (Inr suffix)
    from Cons.IH [of "logged [Extract whl] st"] obtain k where
      "events (snd (extract_all w r ex whls (logged [Extract whl] st)))
         = events (logged [Extract whl] st) @ map Extract (take k whls)" ..
    with Inr have "events (snd (extract_all w r ex (whl # whls) st))
                 = events st @ map Extract (take (Suc k) (whl # whls))"
      by (auto simp: logged_def Let_def split: prod.splits sum.splits)
    then show ?thesis ..
  qed
qed

lemma extract_all_environ: "environ (snd (extract_all w r ex whls st)) = environ st"
proof (induction whls arbitrary: st)
  case Nil
  then show ?case by simp
next
  case (Cons whl whls)
  have "environ (snd (extract_all w r ex whls (logged [Extract whl] st))) = environ st"
    by (simp add: Cons.IH logged_def)
  then show ?case
    by (cases "extract_all w r ex whls (logged [Extract whl] st)")
      (auto simp: Let_def logged_def split: sum.splits)
qed

lemma main_parse_error:
  "parse_args argv = Inl e \<Longrightarrow>
   main w argv st = (Inl e, st\<lparr>environ := configure_reproducible_wheels (environ st)\<rparr>)"
  by (simp add: main_def)

lemma main_sequential_failure:
  assumes "parse_args argv = Inr ns" and "requirements ns = Some p" and "repo ns = Some r"
    and "\<not> precompiled ns"
    and "exit_code w 0 [executable w, ''-m'', ''pip'', ''wheel'', ''-r'', p] \<noteq> 0"
  shows "main w argv st =
    (Inl (CalledProcessError
            (exit_code w 0 [executable w, ''-m'', ''pip'', ''wheel'', ''-r'', p])
            [executable w, ''-m'', ''pip'', ''wheel'', ''-r'', p]
            (stdout w 0 [executable w, ''-m'', ''pip'', ''wheel'', ''-r'', p])),
     \<lparr>environ = configure_reproducible_wheels (environ st),
      events = events st @ [Spawn [executable w, ''-m'', ''pip'', ''wheel'', ''-r'', p]]\<rparr>)"
  using assms by (simp add: main_def check_output_def logged_def Let_def)

lemma main_sequential_success:
  assumes "parse_args argv = Inr ns" and "requirements ns = Some p" and "repo ns = Some r"
    and "\<not> precompiled ns"
    and "exit_code w 0 [executable w, ''-m'', ''pip'', ''wheel'', ''-r'', p] = 0"
  shows "\<exists>rest. events (snd (main w argv st)) =
           events st @ Spawn [executable w, ''-m'', ''pip'', ''wheel'', ''-r'', p] # rest
         \<and> (\<forall>c. Spawn c \<notin> set rest)"
proof -
  define st1 where "st1 = logged [Spawn [executable w, ''-m'', ''pip'', ''wheel'', ''-r'', p]]
    (st\<lparr>environ := configure_reproducible_wheels (environ st)\<rparr>)"
  have ev1: "events st1 = events st @ [Spawn [executable w, ''-m'', ''pip'', ''wheel'', ''-r'', p]]"
    by (simp add: st1_def logged_def)
  have m: "main w argv st =
     (case parse_extras w p of
        Inl e \<Rightarrow> (Inl e, st1)
      | Inr ex \<Rightarrow>
          (case extract_all w r ex (wheels w) st1 of
             (Inl e, st2) \<Rightarrow> (Inl e, st2)
           | (Inr targets, st2) \<Rightarrow>
               (Inr (), logged [Write ''requirements.bzl''
                           (generate_requirements_file_contents w r targets)] st2)))"
    using assms unfolding st1_def by (simp add: main_def check_output_def Let_def)
  show ?thesis
  proof (cases "parse_extras w p")
    case (Inl e)
    with m ev1 show ?thesis by simp
  next
    case (Inr ex)
    obtain k where k: "events (snd (extract_all w r ex (wheels w) st1))
        = events st1 @ map Extract (take k (wheels w))"
      using extract_all_events by blast
    obtain res st2 where x: "extract_all w r ex (wheels w) st1 = (res, st2)"
      by (cases "extract_all w r ex (wheels w) st1")
    with k have ev2: "events st2 = events st1 @ map Extract (take k (wheels w))"
      by simp
    show ?thesis
    proof (cases res)
      case (Inl e)
      with m Inr x have "events (snd (main w argv st)) = events st2" by simp
      with ev1 ev2 show ?thesis by auto
    next
      case (Inr targets)
      with m \<open>parse_extras w p = Inr ex\<close> x have "events (snd (main w argv st)) =
          events st2 @ [Write ''requirements.bzl''
                           (generate_requirements_file_contents w r targets)]"
        by (simp add: logged_def)
      with ev1 ev2 show ?thesis by auto
    qed
  qed
qed


text \<open>
  C7: in sequential mode the resolver is run once, as
  \<^verbatim>\<open>python -m pip wheel -r <requirements>\<close>, and \<^verbatim>\<open>main\<close> goes on only when it is back. A
  non-zero exit code ends the run there with \<^verbatim>\<open>CalledProcessError\<close> (exit code, command,
  captured output): the subprocess is the only effect of the run, nothing is extracted
  and no file is written. With exit code zero no second subprocess follows.
\<close>

theorem main_sequential:
  assumes "parse_args argv = Inr ns" and "\<not> precompiled ns"
  shows "\<exists>p r. requirements ns = Some p \<and> repo ns = Some r \<and>
    (exit_code w 0 [executable w, ''-m'', ''pip'', ''wheel'', ''-r'', p] \<noteq> 0 \<longrightarrow>
       main w argv st =
         (Inl (CalledProcessError
                 (exit_code w 0 [executable w, ''-m'', ''pip'', ''wheel'', ''-r'', p])
                 [executable w, ''-m'', ''pip'', ''wheel'', ''-r'', p]
                 (stdout w 0 [executable w, ''-m'', ''pip'', ''wheel'', ''-r'', p])),
          \<lparr>environ = configure_reproducible_wheels (environ st),
           events = events st @ [Spawn [executable w, ''-m'', ''pip'', ''wheel'', ''-r'', p]]\<rparr>))
    \<and> (exit_code w 0 [executable w, ''-m'', ''pip'', ''wheel'', ''-r'', p] = 0 \<longrightarrow>
         (\<exists>rest. events (snd (main w argv st)) =
                   events st @ Spawn [executable w, ''-m'', ''pip'', ''wheel'', ''-r'', p] # rest
                 \<and> (\<forall>c. Spawn c \<notin> set rest)))"
proof -
  from parse_args_ok [OF assms(1)] obtain p r
    where p: "requirements ns = Some p" and r: "repo ns = Some r" by blast
  from main_sequential_failure [OF assms(1) p r assms(2)]
    main_sequential_success [OF assms(1) p r assms(2)] p r
  show ?thesis by blast
qed

theorem main_sequential_witness:
  "main failing_world [''--requirements'', ''r.txt'', ''--repo'', ''@pypi'']
     \<lparr>environ = Map.empty, events = []\<rparr> =
     (Inl (CalledProcessError 1 [''python'', ''-m'', ''pip'', ''wheel'', ''-r'', ''r.txt''] []),
      \<lparr>environ = configure_reproducible_wheels Map.empty,
       events = [Spawn [''python'', ''-m'', ''pip'', ''wheel'', ''-r'', ''r.txt'']]\<rparr>)"
proof -
  have a: "parse_args [''--requirements'', ''r.txt'', ''--repo'', ''@pypi''] =
             Inr \<lparr>requirements = Some ''r.txt'', repo = Some ''@pypi'', precompiled = False\<rparr>"
    by (rule parse_args_plain) (simp_all add: startswith_def)
  have w: "executable failing_world = ''python''" "exit_code failing_world = (\<lambda>i c. 1)"
    "stdout failing_world = (\<lambda>i c. [])"
    by (simp_all add: failing_world_def example_world_def)
  show ?thesis
    using main_sequential [OF a, of failing_world "\<lparr>environ = Map.empty, events = []\<rparr>"]
    by (simp add: w)
qed

text \<open>
  C9, as stated: an invocation whose \<^verbatim>\<open>--repo\<close> value does not start with \<^verbatim>\<open>@\<close> is
  rejected without fetching. It is not: with \<^verbatim>\<open>--repo pypi\<close> the run fetches, writes
  \<^verbatim>\<open>requirements.bzl\<close> and ends normally.
\<close>

theorem main_repo_sigil_counterexample:
  "\<not> startswith ''pypi'' ''@''
   \<and> main example_world [''--requirements'', ''r.txt'', ''--repo'', ''pypi'']
       \<lparr>environ = Map.empty, events = []\<rparr> =
     (Inr (),
      \<lparr>environ = configure_reproducible_wheels Map.empty,
       events = [Spawn [''python'', ''-m'', ''pip'', ''wheel'', ''-r'', ''r.txt''],
                 Write ''requirements.bzl'' ''pypi'']\<rparr>)"
proof -
  have a: "parse_args [''--requirements'', ''r.txt'', ''--repo'', ''pypi''] =
             Inr \<lparr>requirements = Some ''r.txt'', repo = Some ''pypi'', precompiled = False\<rparr>"
    by (rule parse_args_plain) (simp_all add: startswith_def)
  have "main example_world [''--requirements'', ''r.txt'', ''--repo'', ''pypi'']
       \<lparr>environ = Map.empty, events = []\<rparr> =
     (Inr (),
      \<lparr>environ = configure_reproducible_wheels Map.empty,
       events = [Spawn [''python'', ''-m'', ''pip'', ''wheel'', ''-r'', ''r.txt''],
                 Write ''requirements.bzl'' ''pypi'']\<rparr>)"
    by (simp add: main_def a example_world_def check_output_def logged_def Let_def)
  then show ?thesis
    by (simp add: startswith_def)
qed

text \<open>
  C9, amended: the program requires both \<^verbatim>\<open>--requirements\<close> and \<^verbatim>\<open>--repo\<close>. A command
  line on which no argument starts with \<^verbatim>\<open>--req\<close>, or none with \<^verbatim>\<open>--rep\<close> (the shortest
  unambiguous abbreviations), ends in \<^verbatim>\<open>parse_args\<close> with status 2, or with status 0 when
  an argument asks for help, and every exit of \<^verbatim>\<open>parse_args\<close> leaves the run with no
  effect but the configured environment; after a successful \<^verbatim>\<open>parse_args\<close> both options
  have a value. The value of \<^verbatim>\<open>--repo\<close> is not checked: any two values that do not
  start with a dash are accepted, and the resolver is then run.
\<close>

theorem main_requires_options:
  "(((\<forall>t\<in>set argv. \<not> startswith t ''--req'') \<or> (\<forall>t\<in>set argv. \<not> startswith t ''--rep'')) \<longrightarrow>
      (\<exists>c. main w argv st =
              (Inl (SystemExit c), st\<lparr>environ := configure_reproducible_wheels (environ st)\<rparr>)
          \<and> (c = 2 \<or> (c = 0 \<and> (\<exists>t\<in>set argv. startswith t ''-h'' \<or> startswith t ''--h'')))))
   \<and> (\<forall>e. parse_args argv = Inl e \<longrightarrow>
          main w argv st = (Inl e, st\<lparr>environ := configure_reproducible_wheels (environ st)\<rparr>))
   \<and> (\<forall>ns. parse_args argv = Inr ns \<longrightarrow> (\<exists>p r. requirements ns = Some p \<and> repo ns = Some r))
   \<and> (\<forall>p r. \<not> startswith p ''-'' \<and> \<not> startswith r ''-'' \<longrightarrow>
          parse_args [''--requirements'', p, ''--repo'', r] =
            Inr \<lparr>requirements = Some p, repo = Some r, precompiled = False\<rparr>
        \<and> (\<exists>rest. events (snd (main w [''--requirements'', p, ''--repo'', r] st)) =
              events st @ Spawn [executable w, ''-m'', ''pip'', ''wheel'', ''-r'', p] # rest))"
proof (intro conjI allI impI)
  assume miss: "(\<forall>t\<in>set argv. \<not> startswith t ''--req'') \<or> (\<forall>t\<in>set argv. \<not> startswith t ''--rep'')"
  show "\<exists>c. main w argv st =
              (Inl (SystemExit c), st\<lparr>environ := configure_reproducible_wheels (environ st)\<rparr>)
          \<and> (c = 2 \<or> (c = 0 \<and> (\<exists>t\<in>set argv. startswith t ''-h'' \<or> startswith t ''--h'')))"
  proof (cases "parse_args argv")
    case (Inl e)
    from parse_args_error [OF Inl] main_parse_error [OF Inl, of w st] show ?thesis
      by auto
  next
    case (Inr ns)
    from parse_args_needs [OF Inr] miss show ?thesis by blast
  qed
next
  fix e
  assume "parse_args argv = Inl e"
  then show "main w argv st =
      (Inl e, st\<lparr>environ := configure_reproducible_wheels (environ st)\<rparr>)"
    by (rule main_parse_error)
next
  fix ns
  assume "parse_args argv = Inr ns"
  then show "\<exists>p r. requirements ns = Some p \<and> repo ns = Some r"
    by (rule parse_args_ok)
next
  fix p r
  assume pr: "\<not> startswith p ''-'' \<and> \<not> startswith r ''-''"
  then show "parse_args [''--requirements'', p, ''--repo'', r] =
            Inr \<lparr>requirements = Some p, repo = Some r, precompiled = False\<rparr>"
    by (simp add: parse_args_plain)
next
  fix p r
  assume pr: "\<not> startswith p ''-'' \<and> \<not> startswith r ''-''"
  then have a: "parse_args [''--requirements'', p, ''--repo'', r] =
            Inr \<lparr>requirements = Some p, repo = Some r, precompiled = False\<rparr>"
    by (simp add: parse_args_plain)
  show "\<exists>rest. events (snd (main w [''--requirements'', p, ''--repo'', r] st)) =
              events st @ Spawn [executable w, ''-m'', ''pip'', ''wheel'', ''-r'', p] # rest"
  proof (cases "exit_code w 0 [executable w, ''-m'', ''pip'', ''wheel'', ''-r'', p] = 0")
    case True
    have "\<exists>rest. events (snd (main w [''--requirements'', p, ''--repo'', r] st)) =
              events st @ Spawn [executable w, ''-m'', ''pip'', ''wheel'', ''-r'', p] # rest
            \<and> (\<forall>c. Spawn c \<notin> set rest)"
      by (rule main_sequential_success [OF a _ _ _ True]) simp_all
    then show ?thesis by blast
  next
    case False
    have "main w [''--requirements'', p, ''--repo'', r] st =
      (Inl (CalledProcessError
            (exit_code w 0 [executable w, ''-m'', ''pip'', ''wheel'', ''-r'', p])
            [executable w, ''-m'', ''pip'', ''wheel'', ''-r'', p]
            (stdout w 0 [executable w, ''-m'', ''pip'', ''wheel'', ''-r'', p])),
       \<lparr>environ = configure_reproducible_wheels (environ st),
        events = events st @ [Spawn [executable w, ''-m'', ''pip'', ''wheel'', ''-r'', p]]\<rparr>)"
      by (rule main_sequential_failure [OF a _ _ _ False]) simp_all
    then show ?thesis by simp
  qed
qed

theorem main_requires_options_witness:
  "main example_world [''--repo'', ''@pypi''] \<lparr>environ = Map.empty, events = []\<rparr> =
     (Inl (SystemExit 2), \<lparr>environ = configure_reproducible_wheels Map.empty, events = []\<rparr>)
   \<and> parse_args [''--requirements'', ''r.txt'', ''--repo'', ''pypi''] =
       Inr \<lparr>requirements = Some ''r.txt'', repo = Some ''pypi'', precompiled = False\<rparr>"
  using main_requires_options [of "[''--repo'', ''@pypi'']" example_world
      "\<lparr>environ = Map.empty, events = []\<rparr>"]
  by (simp add: startswith_def)

section \<open>The entry-point installer\<close>

lemma endswith_py_append: "endswith (f @ ''.py'') ''.py''"
  by (simp add: endswith_def)

lemma not_endswith_neq: "\<not> endswith f ''.py'' \<Longrightarrow> f \<noteq> g @ ''.py''"
  by (auto simp: endswith_def)

lemma os_rename_map:
  assumes "os_rename dir src dst es = Inr es'"
  shows "map_of es src \<noteq> None \<and> map_of es' = (map_of es)(src := None, dst := map_of es src)"
proof -
  from assms obtain n where n: "map_of es src = Some n"
    and es': "es' = AList.update dst n (AList.delete src es)"
    by (auto simp: os_rename_def split: option.splits node.splits list.splits)
  then show ?thesis
    by (simp add: update_conv' delete_conv')
qed

lemma rename_loop_exists:
  "fst (rename_loop dir fs es) = Inr () \<Longrightarrow> f \<in> set fs \<Longrightarrow> \<not> endswith f ''.py'' \<Longrightarrow>
   map_of es f \<noteq> None"
proof (induction fs arbitrary: es)
  case Nil
  then show ?case by simp
next
  case (Cons g fs)
  show ?case
  proof (cases "endswith g ''.py''")
    case True
    with Cons show ?thesis by auto
  next
    case False
    with Cons.prems(1) obtain es1 where r: "os_rename dir g (g @ ''.py'') es = Inr es1"
      and l: "fst (rename_loop dir fs es1) = Inr ()"
      by (auto split: sum.splits)
    note m = os_rename_map [OF r]
    show ?thesis
    proof (cases "f = g")
      case True
      with m show ?thesis by simp
    next
      case False
      with Cons.prems(2) have "f \<in> set fs" by simp
      from Cons.IH [OF l this Cons.prems(3)] have "map_of es1 f \<noteq> None" .
      with m False not_endswith_neq [OF Cons.prems(3), of g] show ?thesis
        by (auto split: if_splits)
    qed
  qed
qed

lemma rename_loop_frame:
  "fst (rename_loop dir fs es) = Inr () \<Longrightarrow>
   x \<notin> set fs \<or> endswith x ''.py'' \<Longrightarrow>
   (\<And>f. f \<in> set fs \<Longrightarrow> \<not> endswith f ''.py'' \<Longrightarrow> x \<noteq> f @ ''.py'') \<Longrightarrow>
   map_of (snd (rename_loop dir fs es)) x = map_of es x"
proof (induction fs arbitrary: es)
  case Nil
  then show ?case by simp
next
  case (Cons g fs)
  show ?case
  proof (cases "endswith g ''.py''")
    case True
    with Cons.prems have "map_of (snd (rename_loop dir fs es)) x = map_of es x"
      by (intro Cons.IH) auto
    with True show ?thesis by simp
  next
    case False
    with Cons.prems(1) obtain es1 where r: "os_rename dir g (g @ ''.py'') es = Inr es1"
      and l: "fst (rename_loop dir fs es1) = Inr ()"
      by (auto split: sum.splits)
    note m = os_rename_map [OF r]
    from Cons.prems(2) False have xg: "x \<noteq> g" by auto
    from Cons.prems(3) [of g] False have xgp: "x \<noteq> g @ ''.py''" by simp
    have "map_of (snd (rename_loop dir fs es1)) x = map_of es1 x"
      using l Cons.prems by (intro Cons.IH) auto
    with m xg xgp r False show ?thesis by simp
  qed
qed

lemma rename_loop_renamed:
  "fst (rename_loop dir fs es) = Inr () \<Longrightarrow> f \<in> set fs \<Longrightarrow> \<not> endswith f ''.py'' \<Longrightarrow>
   map_of (snd (rename_loop dir fs es)) f = None
   \<and> map_of (snd (rename_loop dir fs es)) (f @ ''.py'') = map_of es f"
proof (induction fs arbitrary: es)
  case Nil
  then show ?case by simp
next
  case (Cons g fs)
  show ?case
  proof (cases "endswith g ''.py''")
    case True
    with Cons show ?thesis by auto
  next
    case False
    with Cons.prems(1) obtain es1 where r: "os_rename dir g (g @ ''.py'') es = Inr es1"
      and l: "fst (rename_loop dir fs es1) = Inr ()"
      by (auto split: sum.splits)
    note m = os_rename_map [OF r]
    have step: "rename_loop dir (g # fs) es = rename_loop dir fs es1"
      using False r by simp
    have gone: "map_of es1 g = None"
      using m by simp
    have g_later: "g \<notin> set fs"
      using rename_loop_exists [OF l _ False] gone by blast
    show ?thesis
    proof (cases "f = g")
      case True
      have 1: "map_of (snd (rename_loop dir fs es1)) g = map_of es1 g"
        using l
      proof (rule rename_loop_frame)
        show "g \<notin> set fs \<or> endswith g ''.py''"
          using g_later by simp
      next
        fix h
        show "g \<noteq> h @ ''.py''"
          using False by (rule not_endswith_neq)
      qed
      have 2: "map_of (snd (rename_loop dir fs es1)) (g @ ''.py'') = map_of es1 (g @ ''.py'')"
        using l
      proof (rule rename_loop_frame)
        show "g @ ''.py'' \<notin> set fs \<or> endswith (g @ ''.py'') ''.py''"
          by (simp add: endswith_py_append)
      next
        fix h
        assume "h \<in> set fs"
        with g_later show "g @ ''.py'' \<noteq> h @ ''.py''" by auto
      qed
      from 1 2 gone m True show ?thesis
        unfolding step by simp
    next
      case False
      with Cons.prems(2) have f: "f \<in> set fs" by simp
      from Cons.IH [OF l f Cons.prems(3)] have
        "map_of (snd (rename_loop dir fs es1)) f = None"
        "map_of (snd (rename_loop dir fs es1)) (f @ ''.py'') = map_of es1 f"
        by simp_all
      moreover have "map_of es1 f = map_of es f"
        using m False not_endswith_neq [OF Cons.prems(3)] by simp
      ultimately show ?thesis
        unfolding step by simp
    qed
  qed
qed

lemma rename_loop_names:
  assumes "fst (rename_loop dir (map fst es) es) = Inr ()"
    and "x \<in> fst ` set (snd (rename_loop dir (map fst es) es))"
  shows "endswith x ''.py''"
proof (rule ccontr)
  assume no: "\<not> endswith x ''.py''"
  from assms(2) have some: "map_of (snd (rename_loop dir (map fst es) es)) x \<noteq> None"
    by (simp add: map_of_eq_None_iff)
  show False
  proof (cases "x \<in> set (map fst es)")
    case True
    from rename_loop_renamed [OF assms(1) True no] some show False by simp
  next
    case False
    have "map_of (snd (rename_loop dir (map fst es) es)) x = map_of es x"
      using assms(1)
    proof (rule rename_loop_frame)
      show "x \<notin> set (map fst es) \<or> endswith x ''.py''"
        using False by simp
    next
      fix f
      show "x \<noteq> f @ ''.py''"
        using no by (rule not_endswith_neq)
    qed
    moreover from False have "map_of es x = None"
      by (simp add: map_of_eq_None_iff)
    ultimately show False
      using some by simp
  qed
qed

lemma install_entry_points_success:
  assumes "install_entry_points scripts dir d = (Inr names, d')"
  obtains dist rest es1 where "found d = dist # rest"
    and "names = map fst (get_entry_map dist ''console_scripts'')"
    and "scripts (key dist) (version dist) (map snd (get_entry_map dist ''console_scripts''))
           (case bin d of Some (Directory es) \<Rightarrow> es | _ \<Rightarrow> []) = (Inr (), es1)"
    and "fst (rename_loop (path_join dir ''bin'') (map fst es1) es1) = Inr ()"
    and "d' = d\<lparr>bin := Some (Directory (snd (rename_loop (path_join dir ''bin'') (map fst es1) es1)))\<rparr>"
proof (cases "found d")
  case Nil
  with assms show ?thesis
    by (simp add: install_entry_points_def)
next
  case (Cons dist rest)
  obtain r es1 where s: "scripts (key dist) (version dist)
      (map snd (get_entry_map dist ''console_scripts''))
      (case bin d of Some (Directory es) \<Rightarrow> es | _ \<Rightarrow> []) = (r, es1)"
    by (cases "scripts (key dist) (version dist)
      (map snd (get_entry_map dist ''console_scripts''))
      (case bin d of Some (Directory es) \<Rightarrow> es | _ \<Rightarrow> [])")
  obtain q es2 where l: "rename_loop (path_join dir ''bin'') (map fst es1) es1 = (q, es2)"
    by (cases "rename_loop (path_join dir ''bin'') (map fst es1) es1")
  from assms Cons s l have "r = Inr ()" "q = Inr ()"
    "names = map fst (get_entry_map dist ''console_scripts'')"
    "d' = d\<lparr>bin := Some (Directory es2)\<rparr>"
    by (auto simp: install_entry_points_def Let_def
        split: option.splits node.splits sum.splits)
  with Cons s l that [of dist rest es1] show ?thesis
    by simp
qed

text \<open>
  C4: a successful call returns the names of the console scripts of the first
  distribution found, in the order of the entry map, and leaves a directory \<^verbatim>\<open>bin\<close> in
  which every name ends with \<^verbatim>\<open>.py\<close>; a second successful call on the directory it left
  returns the same list. This holds whatever \<^verbatim>\<open>install_scripts\<close> writes into \<^verbatim>\<open>bin\<close>.
\<close>

theorem install_entry_points_names:
  assumes "install_entry_points scripts dir d = (Inr names, d')"
  shows "(\<exists>dist rest. found d = dist # rest
            \<and> names = map fst (get_entry_map dist ''console_scripts''))
       \<and> (\<exists>es. bin d' = Some (Directory es) \<and> (\<forall>f\<in>set (map fst es). endswith f ''.py''))
       \<and> (\<forall>names2 d2. install_entry_points scripts dir d' = (Inr names2, d2) \<longrightarrow> names2 = names)"
proof -
  from assms obtain dist rest es1 where f: "found d = dist # rest"
    and n: "names = map fst (get_entry_map dist ''console_scripts'')"
    and l: "fst (rename_loop (path_join dir ''bin'') (map fst es1) es1) = Inr ()"
    and d': "d' = d\<lparr>bin := Some (Directory (snd (rename_loop (path_join dir ''bin'')
                    (map fst es1) es1)))\<rparr>"
    by (rule install_entry_points_success)
  have 1: "\<exists>dist rest. found d = dist # rest
            \<and> names = map fst (get_entry_map dist ''console_scripts'')"
    using f n by blast
  have "\<forall>x\<in>set (map fst (snd (rename_loop (path_join dir ''bin'') (map fst es1) es1))).
          endswith x ''.py''"
    using rename_loop_names [OF l] by simp
  then have 2: "\<exists>es. bin d' = Some (Directory es) \<and> (\<forall>f\<in>set (map fst es). endswith f ''.py'')"
    using d' by simp
  have 3: "names2 = names" if "install_entry_points scripts dir d' = (Inr names2, d2)"
    for names2 d2
  proof -
    from that obtain dist2 rest2 where "found d' = dist2 # rest2"
      and "names2 = map fst (get_entry_map dist2 ''console_scripts'')"
      by (rule install_entry_points_success)
    with f n d' show ?thesis by simp
  qed
  from 1 2 3 show ?thesis by blast
qed

lemma example_run:
  "install_entry_points example_scripts ''/x/flask'' example_whl =
     (Inr [''flask''],
      example_whl\<lparr>bin := Some (Directory [(''activate.py'', File ''#!/bin/sh''),
                                         (''flask.py'', File ''flask = flask.cli:main'')])\<rparr>)"
  by (simp add: install_entry_points_def example_scripts_def example_whl_def get_entry_map_def
      path_join_def os_rename_def endswith_def Let_def)

lemma example_rerun:
  "install_entry_points example_scripts ''/x/flask''
     (example_whl\<lparr>bin := Some (Directory [(''activate.py'', File ''#!/bin/sh''),
                                         (''flask.py'', File ''flask = flask.cli:main'')])\<rparr>) =
     (Inr [''flask''],
      example_whl\<lparr>bin := Some (Directory [(''activate.py'', File ''#!/bin/sh''),
                                         (''flask.py'', File ''flask = flask.cli:main'')])\<rparr>)"
  by (simp add: install_entry_points_def example_scripts_def example_whl_def get_entry_map_def
      path_join_def os_rename_def endswith_def Let_def)

theorem install_entry_points_names_witness:
  "fst (install_entry_points example_scripts ''/x/flask'' example_whl) = Inr [''flask'']
   \<and> get_entry_map (hd (found example_whl)) ''console_scripts''
       = [(''flask'', ''flask = flask.cli:main'')]
   \<and> fst (install_entry_points example_scripts ''/x/flask''
        (snd (install_entry_points example_scripts ''/x/flask'' example_whl))) = Inr [''flask'']"
proof -
  have a: "fst (install_entry_points example_scripts ''/x/flask'' example_whl) = Inr [''flask'']"
    by (simp add: example_run)
  have b: "get_entry_map (hd (found example_whl)) ''console_scripts''
       = [(''flask'', ''flask = flask.cli:main'')]"
    by (simp add: example_whl_def get_entry_map_def)
  from install_entry_points_names [OF example_run]
  have "\<forall>names2 d2. install_entry_points example_scripts ''/x/flask''
          (example_whl\<lparr>bin := Some (Directory [(''activate.py'', File ''#!/bin/sh''),
                                         (''flask.py'', File ''flask = flask.cli:main'')])\<rparr>)
          = (Inr names2, d2) \<longrightarrow> names2 = [''flask'']"
    by blast
  then have c: "fst (install_entry_points example_scripts ''/x/flask''
        (snd (install_entry_points example_scripts ''/x/flask'' example_whl))) = Inr [''flask'']"
    by (simp add: example_run example_rerun)
  from a b c show ?thesis by (intro conjI)
qed

text \<open>
  C6: when no distribution is found in the directory, the call raises the
  \<^verbatim>\<open>RuntimeError\<close> whose message names the directory, which is the function's
  distribution-not-found error; it returns no list, and the directory is as it was:
  \<^verbatim>\<open>bin\<close> is neither created nor changed and \<^verbatim>\<open>install_scripts\<close> is not run.
\<close>

theorem install_entry_points_no_distribution:
  assumes "found d = []"
  shows "install_entry_points scripts dir d =
           (Inl (RuntimeError (Message
              (''Could not find in Python distribution in directory: '' @ dir))), d)"
  using assms by (simp add: install_entry_points_def)

theorem install_entry_points_no_distribution_witness:
  "install_entry_points example_scripts ''/x/flask'' \<lparr>found = [], bin = None\<rparr> =
     (Inl (RuntimeError (Message
        ''Could not find in Python distribution in directory: /x/flask'')),
      \<lparr>found = [], bin = None\<rparr>)"
  using install_entry_points_no_distribution
    [of "\<lparr>found = [], bin = None\<rparr>" example_scripts "''/x/flask''"]
  by simp

text \<open>
  C10: the renaming goes over everything \<^verbatim>\<open>bin\<close> holds once \<^verbatim>\<open>install_scripts\<close> has
  run, whoever put it there. After a successful call every entry listed then whose name
  lacks \<^verbatim>\<open>.py\<close> is gone under its old name and found under the name with \<^verbatim>\<open>.py\<close>
  added; in particular an entry that was in \<^verbatim>\<open>bin\<close> before the call and that
  \<^verbatim>\<open>install_scripts\<close> left alone is renamed too.
\<close>

theorem rename_covers_bin:
  assumes "install_entry_points scripts dir d = (Inr names, d')"
  shows "\<exists>dist rest es1 es2. found d = dist # rest
     \<and> scripts (key dist) (version dist) (map snd (get_entry_map dist ''console_scripts''))
         (case bin d of Some (Directory es) \<Rightarrow> es | _ \<Rightarrow> []) = (Inr (), es1)
     \<and> bin d' = Some (Directory es2)
     \<and> (\<forall>f\<in>set (map fst es1). \<not> endswith f ''.py'' \<longrightarrow>
           map_of es2 f = None \<and> map_of es2 (f @ ''.py'') = map_of es1 f)
     \<and> (\<forall>es0 f n. bin d = Some (Directory es0) \<and> map_of es0 f = Some n \<and> map_of es1 f = Some n
           \<and> \<not> endswith f ''.py'' \<longrightarrow>
           map_of es2 f = None \<and> map_of es2 (f @ ''.py'') = Some n)"
proof -
  from assms obtain dist rest es1 where f: "found d = dist # rest"
    and s: "scripts (key dist) (version dist) (map snd (get_entry_map dist ''console_scripts''))
           (case bin d of Some (Directory es) \<Rightarrow> es | _ \<Rightarrow> []) = (Inr (), es1)"
    and l: "fst (rename_loop (path_join dir ''bin'') (map fst es1) es1) = Inr ()"
    and d': "d' = d\<lparr>bin := Some (Directory (snd (rename_loop (path_join dir ''bin'')
                    (map fst es1) es1)))\<rparr>"
    by (rule install_entry_points_success)
  define es2 where "es2 = snd (rename_loop (path_join dir ''bin'') (map fst es1) es1)"
  have b: "bin d' = Some (Directory es2)"
    by (simp add: d' es2_def)
  have r: "map_of es2 f = None \<and> map_of es2 (f @ ''.py'') = map_of es1 f"
    if "f \<in> set (map fst es1)" "\<not> endswith f ''.py''" for f
    unfolding es2_def using l that by (rule rename_loop_renamed)
  have p: "map_of es2 f = None \<and> map_of es2 (f @ ''.py'') = Some n"
    if "map_of es1 f = Some n" "\<not> endswith f ''.py''" for f n
  proof -
    from that(1) have "f \<in> set (map fst es1)"
      by (auto dest: map_of_SomeD intro: rev_image_eqI)
    from r [OF this that(2)] that(1) show ?thesis by simp
  qed
  from f s b r p show ?thesis by blast
qed

theorem rename_covers_bin_witness:
  "bin example_whl = Some (Directory [(''activate'', File ''#!/bin/sh'')])
   \<and> (\<exists>es2. bin (snd (install_entry_points example_scripts ''/x/flask'' example_whl))
               = Some (Directory es2)
           \<and> map_of es2 ''activate'' = None
           \<and> map_of es2 ''activate.py'' = Some (File ''#!/bin/sh''))"
proof -
  from rename_covers_bin [OF example_run] obtain dist rest es1 es2 where
    f: "found example_whl = dist # rest"
    and s: "example_scripts (key dist) (version dist)
              (map snd (get_entry_map dist ''console_scripts''))
              (case bin example_whl of Some (Directory es) \<Rightarrow> es | _ \<Rightarrow> []) = (Inr (), es1)"
    and b: "bin (example_whl\<lparr>bin := Some (Directory [(''activate.py'', File ''#!/bin/sh''),
                                         (''flask.py'', File ''flask = flask.cli:main'')])\<rparr>)
              = Some (Directory es2)"
    and p: "\<forall>es0 f n. bin example_whl = Some (Directory es0) \<and> map_of es0 f = Some n
              \<and> map_of es1 f = Some n \<and> \<not> endswith f ''.py'' \<longrightarrow>
              map_of es2 f = None \<and> map_of es2 (f @ ''.py'') = Some n"
    by blast
  have w: "bin example_whl = Some (Directory [(''activate'', File ''#!/bin/sh'')])"
    by (simp add: example_whl_def)
  from f have dist: "dist = \<lparr>key = ''flask'', version = ''2.0.1'',
      entry_map = [(''console_scripts'', [(''flask'', ''flask = flask.cli:main'')])]\<rparr>"
    by (simp add: example_whl_def)
  from s have es1: "es1 = [(''activate'', File ''#!/bin/sh''),
                           (''flask'', File ''flask = flask.cli:main'')]"
    by (simp add: dist w example_scripts_def get_entry_map_def)
  from p [rule_format, of "[(''activate'', File ''#!/bin/sh'')]" "''activate''" "File ''#!/bin/sh''"]
  have "map_of es2 ''activate'' = None \<and> map_of es2 ''activate.py'' = Some (File ''#!/bin/sh'')"
    by (simp add: w es1 endswith_def)
  with b w show ?thesis
    by (simp add: example_run)
qed

end
